theory Spec2Isabelle
  imports Complex_Main "HOL-Library.Sublist"
begin

section \<open>Prompt-improvement analyzer (prompt\_improvement\_analyzer.py)\<close>

subsection \<open>Data\<close>

text \<open>
  One entry of \<open>deep_review_recommendations\<close>: a deep review with the session it belongs to
  and its list of recommendation strings.
\<close>

record review =
  rv_session_id :: string
  rv_session_number :: int
  rv_project_name :: string
  rv_overall_rating :: int
  rv_recommendations :: "string list"

text \<open>The \<open>session_info\<close> dict built per review in \<open>_aggregate_recommendations\<close>.\<close>

record session_ref =
  sr_session_id :: string
  sr_session_number :: int
  sr_project_name :: string
  sr_overall_rating :: int

text \<open>The value type of the \<open>themes\<close> defaultdict while aggregating.\<close>

record theme_acc =
  acc_recommendations :: "string list"
  acc_session_dict :: "(string \<times> session_ref) list"
  acc_frequency :: nat

text \<open>
  One value of the dict returned by \<open>_aggregate_recommendations\<close>. The average quality is
  a quotient of integers; it is kept exact here (the source holds it in a float and only
  compares it with 9 and 6).
\<close>

record theme_data =
  theme_name :: string
  recommendations :: "string list"
  sessions :: "session_ref list"
  frequency :: nat
  avg_quality :: rat
  unique_sessions :: nat

text \<open>
  The dict parsed from Claude's JSON answer in \<open>_generate_diff_with_claude\<close>: the three
  validated keys are always present, the two others may be missing.
\<close>

record diff_result =
  df_section_name :: string
  df_change_type :: "string option"
  df_original_text :: "string option"
  df_proposed_text :: string
  df_rationale :: string

text \<open>
  A proposal dict. The \<open>rationale\<close> text is left out (it formats a float); the single
  evidence entry is flattened into the \<open>ev_\<close> fields.
\<close>

record proposal =
  prompt_file :: string
  section_name :: string
  change_type :: string
  original_text :: string
  proposed_text :: string
  ev_type :: string
  ev_theme :: string
  ev_frequency :: nat
  ev_sessions :: "session_ref list"
  ev_avg_quality :: rat
  confidence_level :: int

subsection \<open>Python dicts with insertion order\<close>

text \<open>
  A dict is an association list with distinct keys in insertion order: assigning to a present
  key keeps its position, assigning to a new key appends it.
\<close>

fun dict_set :: "('k \<times> 'v) list \<Rightarrow> 'k \<Rightarrow> 'v \<Rightarrow> ('k \<times> 'v) list" where
  "dict_set [] k v = [(k, v)]"
| "dict_set ((k', v') # kvs) k v =
     (if k' = k then (k, v) # kvs else (k', v') # dict_set kvs k v)"

subsection \<open>Aggregation of recommendations into themes\<close>

text \<open>\<open>str.lower()\<close> on ASCII text: the letters A to Z move to a to z.\<close>

definition lower_char :: "char \<Rightarrow> char" where
  "lower_char c =
     (let n = (of_char c :: nat) in if 65 \<le> n \<and> n \<le> 90 then char_of (n + 32) else c)"

definition lower :: "string \<Rightarrow> string" where
  "lower s = map lower_char s"

definition theme_keywords :: "(string \<times> string list) list" where
  "theme_keywords =
    [(''browser_verification'',
        [''browser'', ''screenshot'', ''playwright'', ''visual'', ''ui'', ''verify'']),
     (''error_handling'', [''error'', ''recovery'', ''debugging'', ''fix'', ''retry'']),
     (''git_commits'', [''commit'', ''git'', ''message'', ''version control'']),
     (''testing'', [''test'', ''testing'', ''unit test'', ''e2e'', ''coverage'']),
     (''docker'', [''docker'', ''bash_docker'', ''container'']),
     (''parallel_execution'', [''parallel'', ''concurrent'', ''independent'']),
     (''task_management'', [''task'', ''epic'', ''checklist'', ''workflow'']),
     (''documentation'', [''comment'', ''documentation'', ''readme''])]"

text \<open>\<open>any(keyword in rec_lower for keyword in keywords)\<close>\<close>

definition any_keyword_in :: "string list \<Rightarrow> string \<Rightarrow> bool" where
  "any_keyword_in keywords rec_lower = list_ex (\<lambda>keyword. sublist keyword rec_lower) keywords"

text \<open>The inner loop that collects \<open>matched_themes\<close>, with the fallback to \<open>general\<close>.\<close>

definition matched_themes :: "string \<Rightarrow> string list" where
  "matched_themes rec =
     (let rec_lower = lower rec;
          matched = map fst (filter (\<lambda>(theme, keywords). any_keyword_in keywords rec_lower)
                                    theme_keywords)
      in if matched = [] then [''general''] else matched)"

definition theme_default :: theme_acc where
  "theme_default = \<lparr>acc_recommendations = [], acc_session_dict = [], acc_frequency = 0\<rparr>"

text \<open>
  The body of \<open>for theme in matched_themes\<close>: reading \<open>themes[theme]\<close> creates the default
  entry when the key is new.
\<close>

definition add_to_theme ::
  "string \<Rightarrow> session_ref \<Rightarrow> string \<Rightarrow> (string \<times> theme_acc) list \<Rightarrow> (string \<times> theme_acc) list"
where
  "add_to_theme rec sinfo theme themes =
     (let d = (case map_of themes theme of None \<Rightarrow> theme_default | Some a \<Rightarrow> a);
          d1 = d\<lparr>acc_recommendations := acc_recommendations d @ [rec],
                 acc_frequency := acc_frequency d + 1\<rparr>;
          sid = sr_session_id sinfo;
          d2 = (if map_of (acc_session_dict d1) sid = None
                then d1\<lparr>acc_session_dict := dict_set (acc_session_dict d1) sid sinfo\<rparr>
                else d1)
      in dict_set themes theme d2)"

definition process_rec ::
  "session_ref \<Rightarrow> string \<Rightarrow> (string \<times> theme_acc) list \<Rightarrow> (string \<times> theme_acc) list"
where
  "process_rec sinfo rec themes = fold (add_to_theme rec sinfo) (matched_themes rec) themes"

definition session_info_of :: "review \<Rightarrow> session_ref" where
  "session_info_of rv =
     \<lparr>sr_session_id = rv_session_id rv, sr_session_number = rv_session_number rv,
      sr_project_name = rv_project_name rv, sr_overall_rating = rv_overall_rating rv\<rparr>"

definition process_review ::
  "review \<Rightarrow> (string \<times> theme_acc) list \<Rightarrow> (string \<times> theme_acc) list"
where
  "process_review rv themes =
     fold (process_rec (session_info_of rv)) (rv_recommendations rv) themes"

definition collect_themes :: "review list \<Rightarrow> (string \<times> theme_acc) list" where
  "collect_themes reviews = fold process_review reviews []"

text \<open>The second loop: one result entry per theme with a positive frequency.\<close>

definition format_theme :: "string \<times> theme_acc \<Rightarrow> string \<times> theme_data" where
  "format_theme = (\<lambda>(name, d).
     (let sessions_list = map snd (acc_session_dict d);
          n = length sessions_list;
          total_quality = sum_list (map sr_overall_rating sessions_list)
      in (name,
          \<lparr>theme_name = name,
           recommendations = acc_recommendations d,
           sessions = sessions_list,
           frequency = acc_frequency d,
           avg_quality = (if n > 0 then of_int total_quality / of_nat n else 0),
           unique_sessions = n\<rparr>)))"

definition aggregate_recommendations :: "review list \<Rightarrow> (string \<times> theme_data) list" where
  "aggregate_recommendations reviews =
     map format_theme (filter (\<lambda>(name, d). acc_frequency d > 0) (collect_themes reviews))"

subsection \<open>Confidence of a theme\<close>

definition calculate_theme_confidence :: "theme_data \<Rightarrow> int" where
  "calculate_theme_confidence td =
     (let base = (if unique_sessions td \<ge> 5 then 9
                  else if unique_sessions td \<ge> 3 then 7
                  else if unique_sessions td \<ge> 2 then 5
                  else 3)
      in if avg_quality td \<ge> 9 then min 10 (base + 1)
         else if avg_quality td < 6 then max 1 (base - 1)
         else base)"

subsection \<open>Proposals from the aggregated themes\<close>

definition map_theme_to_section :: "string \<Rightarrow> string" where
  "map_theme_to_section name =
     (case map_of
        [(''browser_verification'', ''Step 3: Implement and verify the solution''),
         (''error_handling'', ''Error Recovery and Debugging''),
         (''git_commits'', ''Git Workflow''),
         (''testing'', ''Testing Requirements''),
         (''docker'', ''Docker Environment''),
         (''parallel_execution'', ''Tool Usage Optimization''),
         (''task_management'', ''Task Management''),
         (''documentation'', ''Code Documentation''),
         (''general'', ''General Instructions'')] name of
        Some s \<Rightarrow> s
      | None \<Rightarrow> ''General Instructions'')"

definition coding_prompt_file :: "string \<Rightarrow> string" where
  "coding_prompt_file sandbox_type = ''coding_prompt_'' @ sandbox_type @ ''.md''"

text \<open>The proposal built from a Claude-generated diff.\<close>

definition claude_proposal :: "string \<Rightarrow> string \<Rightarrow> theme_data \<Rightarrow> diff_result \<Rightarrow> proposal" where
  "claude_proposal sandbox_type name td diff =
     \<lparr>prompt_file = coding_prompt_file sandbox_type,
      section_name = df_section_name diff,
      change_type = (case df_change_type diff of Some c \<Rightarrow> c | None \<Rightarrow> ''modification''),
      original_text = (case df_original_text diff of Some t \<Rightarrow> t | None \<Rightarrow> []),
      proposed_text = df_proposed_text diff,
      ev_type = ''deep_review_claude'',
      ev_theme = name,
      ev_frequency = frequency td,
      ev_sessions = take 5 (sessions td),
      ev_avg_quality = avg_quality td,
      confidence_level = min 10 (calculate_theme_confidence td + 1)\<rparr>"

text \<open>\<open>"\n".join(f"- {rec}" for rec in best_recommendations)\<close>\<close>

fun join_lines :: "string list \<Rightarrow> string" where
  "join_lines [] = []"
| "join_lines [l] = l"
| "join_lines (l # ls) = l @ [CHR 0x0A] @ join_lines ls"

text \<open>The proposal built from the recommendations themselves: the three shortest ones.\<close>

definition fallback_proposal :: "string \<Rightarrow> string \<Rightarrow> theme_data \<Rightarrow> proposal" where
  "fallback_proposal sandbox_type name td =
     (let best_recommendations = take 3 (sort_key length (recommendations td))
      in \<lparr>prompt_file = coding_prompt_file sandbox_type,
           section_name = map_theme_to_section name,
           change_type = ''modification'',
           original_text = [],
           proposed_text = join_lines (map (\<lambda>rec. ''- '' @ rec) best_recommendations),
           ev_type = ''deep_review'',
           ev_theme = name,
           ev_frequency = frequency td,
           ev_sessions = take 5 (sessions td),
           ev_avg_quality = avg_quality td,
           confidence_level = calculate_theme_confidence td\<rparr>)"

definition claude_budget :: nat where
  "claude_budget = 3"

text \<open>
  The loop over the sorted themes. \<open>claude\<close> stands for \<open>_generate_diff_with_claude\<close> closed
  over the current prompt and the sandbox type: it catches every failure itself and returns
  \<open>None\<close> then, so the call counter always advances after a call.
\<close>

fun proposals_loop ::
  "(string \<Rightarrow> string list \<Rightarrow> diff_result option) \<Rightarrow> string \<Rightarrow> nat \<Rightarrow>
   (string \<times> theme_data) list \<Rightarrow> proposal list"
where
  "proposals_loop claude sandbox_type claude_used [] = []"
| "proposals_loop claude sandbox_type claude_used ((name, td) # rest) =
     (if frequency td < 2 then proposals_loop claude sandbox_type claude_used rest
      else if claude_used < claude_budget \<and> unique_sessions td \<ge> 3 then
        (case claude name (recommendations td) of
           Some diff \<Rightarrow>
             claude_proposal sandbox_type name td diff
               # proposals_loop claude sandbox_type (claude_used + 1) rest
         | None \<Rightarrow>
             fallback_proposal sandbox_type name td
               # proposals_loop claude sandbox_type (claude_used + 1) rest)
      else fallback_proposal sandbox_type name td
             # proposals_loop claude sandbox_type claude_used rest)"

text \<open>
  \<open>sorted(items, key=frequency, reverse=True)\<close> is a stable sort by descending frequency.
\<close>

definition generate_proposals_from_deep_reviews ::
  "(string \<Rightarrow> string list \<Rightarrow> diff_result option) \<Rightarrow> string \<Rightarrow>
   (string \<times> theme_data) list \<Rightarrow> proposal list"
where
  "generate_proposals_from_deep_reviews claude sandbox_type aggregated =
     proposals_loop claude sandbox_type 0
       (sort_key (\<lambda>(name, td). - int (frequency td)) aggregated)"

subsection \<open>The confidence rule in the words of the specification\<close>

text \<open>
  The buckets as the specification words them: at most 2 sessions give 3, at most 3 give 5,
  at most 5 give 7, more give 9.
\<close>

definition spec_bucket :: "nat \<Rightarrow> int" where
  "spec_bucket n = (if n \<le> 2 then 3 else if n \<le> 3 then 5 else if n \<le> 5 then 7 else 9)"

text \<open>The buckets read as lower bounds: 5 or more sessions give 9, 3 or more 7, 2 or more 5.\<close>

definition lower_bound_bucket :: "nat \<Rightarrow> int" where
  "lower_bound_bucket n = (if n \<ge> 5 then 9 else if n \<ge> 3 then 7 else if n \<ge> 2 then 5 else 3)"

definition quality_adjustment :: "rat \<Rightarrow> int" where
  "quality_adjustment q = (if q \<ge> 9 then 1 else if q < 6 then - 1 else 0)"

definition clamp_1_10 :: "int \<Rightarrow> int" where
  "clamp_1_10 x = max 1 (min 10 x)"

definition spec_confidence :: "(nat \<Rightarrow> int) \<Rightarrow> theme_data \<Rightarrow> bool \<Rightarrow> int" where
  "spec_confidence bucket td claude_enhanced =
     clamp_1_10 (bucket (unique_sessions td) + quality_adjustment (avg_quality td)
                 + (if claude_enhanced then 1 else 0))"

definition example_theme :: theme_data where
  "example_theme =
     \<lparr>theme_name = ''testing'', recommendations = [''add tests'', ''test more''],
      sessions = [], frequency = 2, avg_quality = 7, unique_sessions = 2\<rparr>"

subsection \<open>Reading the aggregation\<close>

text \<open>The recommendations and the frequency stored for a theme in the \<open>themes\<close> dict (nothing stored: empty, 0).\<close>

definition recs_of :: "(string \<times> theme_acc) list \<Rightarrow> string \<Rightarrow> string list" where
  "recs_of themes t = (case map_of themes t of None \<Rightarrow> [] | Some d \<Rightarrow> acc_recommendations d)"

definition freq_of :: "(string \<times> theme_acc) list \<Rightarrow> string \<Rightarrow> nat" where
  "freq_of themes t = (case map_of themes t of None \<Rightarrow> 0 | Some d \<Rightarrow> acc_frequency d)"

text \<open>Every recommendation string of every review, in the order the loops visit them.\<close>

definition all_recommendations :: "review list \<Rightarrow> string list" where
  "all_recommendations reviews = concat (map rv_recommendations reviews)"

text \<open>The recommendations the loops send to a theme.\<close>

definition bucket_of :: "review list \<Rightarrow> string \<Rightarrow> string list" where
  "bucket_of reviews t = filter (\<lambda>rec. t \<in> set (matched_themes rec)) (all_recommendations reviews)"

text \<open>A theme of the taxonomy matches a recommendation when one of its keywords is a substring of it, letter case ignored on both sides.\<close>

definition theme_matches :: "string \<Rightarrow> string \<Rightarrow> bool" where
  "theme_matches t rec =
     list_ex (\<lambda>(t', keywords). t' = t \<and> list_ex (\<lambda>k. sublist (lower k) (lower rec)) keywords)
       theme_keywords"

text \<open>The bucketing rule: every matching theme, and \<open>general\<close> when no theme of the taxonomy matches.\<close>

definition in_theme :: "string \<Rightarrow> string \<Rightarrow> bool" where
  "in_theme t rec =
     (theme_matches t rec \<or>
      (t = ''general'' \<and> \<not> list_ex (\<lambda>t'. theme_matches t' rec) (map fst theme_keywords)))"

text \<open>Reading the aggregated dict: the recommendations and the frequency of a theme (absent theme: empty, 0).\<close>

definition recommendations_in :: "(string \<times> theme_data) list \<Rightarrow> string \<Rightarrow> string list" where
  "recommendations_in aggregated t =
     (case map_of aggregated t of None \<Rightarrow> [] | Some td \<Rightarrow> recommendations td)"

definition frequency_in :: "(string \<times> theme_data) list \<Rightarrow> string \<Rightarrow> nat" where
  "frequency_in aggregated t =
     (case map_of aggregated t of None \<Rightarrow> 0 | Some td \<Rightarrow> frequency td)"

text \<open>Two deep reviews used to evaluate the aggregation.\<close>

definition example_reviews :: "review list" where
  "example_reviews =
     [\<lparr>rv_session_id = ''s1'', rv_session_number = 5, rv_project_name = ''p1'',
       rv_overall_rating = 8,
       rv_recommendations = [''Take a Screenshot after each UI change'', ''Be more careful'']\<rparr>,
      \<lparr>rv_session_id = ''s2'', rv_session_number = 10, rv_project_name = ''p1'',
       rv_overall_rating = 6,
       rv_recommendations = [''Verify in the BROWSER and add a test'', ''Write a README'']\<rparr>]"

section \<open>Session orchestrator (orchestrator.py)\<close>

subsection \<open>Data\<close>

datatype SessionStatus = PENDING | RUNNING | COMPLETED | ERROR | INTERRUPTED

datatype SessionType = INITIALIZER | CODING | REVIEW

text \<open>
  What a step of \<open>start_session\<close> can raise: a keyboard interrupt, an exception of class
  \<open>Exception\<close> with its message, or one of the exceptions outside class \<open>Exception\<close> that
  neither \<open>except\<close> clause of \<open>start_session\<close> names: \<open>asyncio.CancelledError\<close>, raised in
  the awaiting coroutine when its task is cancelled (the API cancels the running tasks on
  shutdown), and \<open>SystemExit\<close> (\<open>sys.exit()\<close> on interrupt when \<open>allow_exit\<close> is true).
\<close>

datatype raised = KeyboardInterrupt | Exception string | CancelledError | SystemExit

text \<open>
  What the orchestrator raises to its caller: a \<open>ValueError\<close> of its own, or what a step
  raised and no \<open>except\<close> clause caught.
\<close>

datatype error = ValueError string | Uncaught raised

text \<open>
  Where bringing up the sandbox of a session can fail: \<open>SandboxManager.create_sandbox\<close>,
  called after the session row is allocated and before the \<open>try\<close>, or \<open>sandbox.start()\<close>, the
  first step inside the \<open>try\<close>.
\<close>

datatype sandbox_failure = CreateSandbox raised | StartSandbox raised

datatype db_error = UniqueViolationError

text \<open>
  A row of the \<open>sessions\<close> table. Identifiers (UUIDs in the source) are numbers; a time
  stamp is the text that \<open>str\<close> gives for it.
\<close>

record session_row =
  row_id :: nat
  row_project_id :: nat
  row_session_number :: nat
  row_session_type :: SessionType
  row_model :: string
  row_status :: SessionStatus
  row_started_at :: "string option"
  row_error_message :: "string option"
  row_interruption_reason :: "string option"

text \<open>The dict returned by \<open>get_progress\<close>.\<close>

record progress =
  completed_epics :: nat
  total_epics :: nat
  completed_tasks :: nat
  total_tasks :: nat

text \<open>A row of \<open>session_quality_checks\<close>.\<close>

record quality_check =
  qc_session_id :: nat
  qc_check_type :: string
  qc_overall_rating :: int

text \<open>The \<open>SessionInfo\<close> dataclass, without its time stamps and metrics.\<close>

record SessionInfo =
  si_session_id :: nat
  si_project_id :: nat
  si_session_number :: nat
  si_session_type :: SessionType
  si_model :: string
  si_status :: SessionStatus
  si_error_message :: "string option"

text \<open>The \<open>SessionManager\<close> of a running session: its interrupt flag and whether a logger is set.\<close>

record SessionManager =
  interrupted :: bool
  current_logger :: bool

text \<open>The helper coroutines the orchestrator awaits or spawns, as a log of calls.\<close>

datatype call = QualityCheck nat | TestCoverage nat | DeepReviewTask nat

text \<open>
  The state the orchestrator works on: the tables of the store it reads and writes, the
  orchestrator object's two dicts and its optional event callback, the events published to
  subscribers, the log of helper calls, and the successive contents of the \<open>sessions\<close>
  table (one snapshot per write).
\<close>

record world =
  db_projects :: "nat \<Rightarrow> string option"
  db_progress :: "nat \<Rightarrow> progress"
  db_sessions :: "session_row list"
  db_quality_checks :: "quality_check list"
  db_test_coverage :: "nat list"
  db_completed_projects :: "nat list"
  session_managers :: "(nat \<times> SessionManager) list"
  stop_after_current :: "(nat \<times> bool) list"
  event_callback :: bool
  published :: "(nat \<times> string) list"
  calls :: "call list"
  sessions_history :: "session_row list list"

text \<open>
  Everything outside the orchestrator that decides how one session goes: the clock, whether
  creating or starting the sandbox raises, whether creating the client raises, what the agent
  run returns or raises, whether the store write of an \<open>except\<close> clause raises, the project's
  progress once the agent has worked, the inputs of the quality check and of the coverage
  analysis, and whether a graceful stop is requested while the agent runs.
\<close>

record session_env =
  env_now :: string
  env_sandbox_start :: "sandbox_failure option"
  env_client :: "raised option"
  env_agent :: "raised + string \<times> string"
  env_handler_end_session :: "raised option"
  env_progress_after :: progress
  env_jsonl_exists :: bool
  env_quality :: "int option"
  env_coverage_ok :: bool
  env_stop_requested :: bool

subsection \<open>Text of numbers\<close>

definition digit_char :: "nat \<Rightarrow> char" where
  "digit_char d = char_of (48 + d)"

fun string_of_nat :: "nat \<Rightarrow> string" where
  "string_of_nat n =
     (if n < 10 then [digit_char n] else string_of_nat (n div 10) @ [digit_char (n mod 10)])"

subsection \<open>The store\<close>

text \<open>
  Every write to the \<open>sessions\<close> table also records the new content of the table.
\<close>

definition write_sessions :: "session_row list \<Rightarrow> world \<Rightarrow> world" where
  "write_sessions rows w =
     w\<lparr>db_sessions := rows, sessions_history := sessions_history w @ [rows]\<rparr>"

text \<open>
  Modelled from the spec: \<open>get_active_session(project)\<close> of the store, which is not among
  the sources: it returns the running session of the project, or nothing.
\<close>

definition get_active_session :: "world \<Rightarrow> nat \<Rightarrow> session_row option" where
  "get_active_session w pid =
     find (\<lambda>r. row_project_id r = pid \<and> row_status r = RUNNING) (db_sessions w)"

text \<open>
  Modelled from the spec: \<open>get_next_session_number\<close> of the store: the allocator picks the
  greatest number of the project plus one, and 0 for the first session.
\<close>

definition get_next_session_number :: "world \<Rightarrow> nat \<Rightarrow> nat" where
  "get_next_session_number w pid =
     (case filter (\<lambda>r. row_project_id r = pid) (db_sessions w) of
        [] \<Rightarrow> 0
      | r # rs \<Rightarrow> Suc (fold max (map row_session_number (r # rs)) 0))"

text \<open>
  A new identifier (a new UUID in the source): different from those of all rows.
\<close>

definition fresh_id :: "session_row list \<Rightarrow> nat" where
  "fresh_id rows = (case rows of [] \<Rightarrow> 0 | r # rs \<Rightarrow> Suc (fold max (map row_id rows) 0))"

text \<open>
  Modelled from the spec: \<open>create_session\<close> of the store: a new row in status pending under
  a new identifier, refused with a unique violation when the project already has a session of
  that number.
\<close>

definition new_row :: "session_row list \<Rightarrow> nat \<Rightarrow> nat \<Rightarrow> SessionType \<Rightarrow> string \<Rightarrow> session_row" where
  "new_row rows pid session_number session_type model =
     \<lparr>row_id = fresh_id rows, row_project_id = pid, row_session_number = session_number,
      row_session_type = session_type, row_model = model, row_status = PENDING,
      row_started_at = None, row_error_message = None, row_interruption_reason = None\<rparr>"

definition create_session ::
  "nat \<Rightarrow> nat \<Rightarrow> SessionType \<Rightarrow> string \<Rightarrow> world \<Rightarrow> db_error + session_row \<times> world"
where
  "create_session pid session_number session_type model w =
     (if list_ex (\<lambda>r. row_project_id r = pid \<and> row_session_number r = session_number)
           (db_sessions w)
      then Inl UniqueViolationError
      else let row = new_row (db_sessions w) pid session_number session_type model
           in Inr (row, write_sessions (db_sessions w @ [row]) w))"

text \<open>\<open>UPDATE sessions SET ... WHERE id = $1\<close>\<close>

definition update_row ::
  "nat \<Rightarrow> (session_row \<Rightarrow> session_row) \<Rightarrow> session_row list \<Rightarrow> session_row list"
where
  "update_row sid f rows = map (\<lambda>r. if row_id r = sid then f r else r) rows"

definition mark_running :: "string \<Rightarrow> session_row \<Rightarrow> session_row" where
  "mark_running now r = r\<lparr>row_status := RUNNING, row_started_at := Some now\<rparr>"

definition mark_ended ::
  "SessionStatus \<Rightarrow> string option \<Rightarrow> string option \<Rightarrow> session_row \<Rightarrow> session_row"
where
  "mark_ended status error_message interruption_reason r =
     r\<lparr>row_status := status,
       row_error_message :=
         (case error_message of None \<Rightarrow> row_error_message r | Some m \<Rightarrow> Some m),
       row_interruption_reason :=
         (case interruption_reason of None \<Rightarrow> row_interruption_reason r | Some m \<Rightarrow> Some m)\<rparr>"

text \<open>
  Modelled from the spec: \<open>start_session(session_id)\<close> of the store: the row goes to status
  running and gets its start time.
\<close>

definition db_start_session :: "nat \<Rightarrow> string \<Rightarrow> world \<Rightarrow> world" where
  "db_start_session sid now w =
     write_sessions (update_row sid (mark_running now) (db_sessions w)) w"

text \<open>
  Modelled from the spec: \<open>end_session(session_id, status, error_message, interruption_reason)\<close>
  of the store: the row takes the given status, and the message and the reason that are given.
\<close>

definition end_session ::
  "nat \<Rightarrow> SessionStatus \<Rightarrow> string option \<Rightarrow> string option \<Rightarrow> world \<Rightarrow> world"
where
  "end_session sid status error_message interruption_reason w =
     write_sessions
       (update_row sid (mark_ended status error_message interruption_reason) (db_sessions w)) w"

text \<open>The row of a session, as \<open>SELECT ... FROM sessions WHERE id = $1\<close> fetches it.\<close>

definition fetch_session :: "world \<Rightarrow> nat \<Rightarrow> session_row option" where
  "fetch_session w sid = find (\<lambda>r. row_id r = sid) (db_sessions w)"

text \<open>
  Modelled from the spec: \<open>mark_project_complete\<close> of the store.
\<close>

definition mark_project_complete :: "nat \<Rightarrow> world \<Rightarrow> world" where
  "mark_project_complete pid w = w\<lparr>db_completed_projects := db_completed_projects w @ [pid]\<rparr>"

subsection \<open>Events\<close>

text \<open>\<open>notify_project_update\<close> of the API: the event reaches the project's subscribers.\<close>

definition notify_project_update :: "nat \<Rightarrow> string \<Rightarrow> world \<Rightarrow> world" where
  "notify_project_update pid event_type w = w\<lparr>published := published w @ [(pid, event_type)]\<rparr>"

text \<open>\<open>if self.event_callback: await self.event_callback(project_id, event_type, data)\<close>\<close>

definition emit :: "nat \<Rightarrow> string \<Rightarrow> world \<Rightarrow> world" where
  "emit pid event_type w =
     (if event_callback w then notify_project_update pid event_type w else w)"

subsection \<open>Deep-review trigger\<close>

text \<open>The greatest session number of the project that has a deep review recorded.\<close>

definition last_deep_reviewed_number :: "world \<Rightarrow> nat \<Rightarrow> nat option" where
  "last_deep_reviewed_number w pid =
     (case filter (\<lambda>r. row_project_id r = pid \<and>
                        list_ex (\<lambda>q. qc_session_id q = row_id r \<and> qc_check_type q = ''deep'')
                          (db_quality_checks w)) (db_sessions w) of
        [] \<Rightarrow> None
      | r # rs \<Rightarrow> Some (fold max (map row_session_number (r # rs)) 0))"

text \<open>
  Modelled from the spec: \<open>should_trigger_deep_review\<close> of the review client, which is not
  among the sources (only its caller and its test are): the four rules of the trigger policy,
  in their order.
\<close>

definition should_trigger_deep_review :: "world \<Rightarrow> nat \<Rightarrow> nat \<Rightarrow> int \<Rightarrow> bool" where
  "should_trigger_deep_review w pid session_number session_quality =
     (if session_number mod 5 = 0 \<and> session_number \<ge> 5 then True
      else if last_deep_reviewed_number w pid = None \<and> session_number \<ge> 5 then True
      else if (case last_deep_reviewed_number w pid of
                 None \<Rightarrow> False
               | Some last_reviewed \<Rightarrow> int session_number - int last_reviewed \<ge> 5) then True
      else session_quality < 7)"

text \<open>
  \<open>_maybe_trigger_deep_review\<close>: the session is fetched, the trigger is evaluated, and the deep
  review is spawned as a background task; a failure is logged and swallowed.
\<close>

definition maybe_trigger_deep_review :: "nat \<Rightarrow> int \<Rightarrow> world \<Rightarrow> world" where
  "maybe_trigger_deep_review sid session_quality w =
     (case fetch_session w sid of
        None \<Rightarrow> w
      | Some session \<Rightarrow>
          if should_trigger_deep_review w (row_project_id session) (row_session_number session)
               session_quality
          then w\<lparr>calls := calls w @ [DeepReviewTask sid]\<rparr>
          else w)"

subsection \<open>Quality check and coverage analysis after a session\<close>

text \<open>
  \<open>_run_quality_check\<close>: skipped when the session log is missing; a failure inside is logged
  and swallowed (\<open>env_quality = None\<close>); otherwise the quick check is stored and the
  deep-review trigger is evaluated.
\<close>

definition run_quality_check :: "session_env \<Rightarrow> nat \<Rightarrow> world \<Rightarrow> world" where
  "run_quality_check env sid w0 =
     (let w = w0\<lparr>calls := calls w0 @ [QualityCheck sid]\<rparr>
      in if \<not> env_jsonl_exists env then w
         else (case env_quality env of
                 None \<Rightarrow> w
               | Some rating \<Rightarrow>
                   maybe_trigger_deep_review sid rating
                     (w\<lparr>db_quality_checks := db_quality_checks w @
                          [\<lparr>qc_session_id = sid, qc_check_type = ''quick'',
                            qc_overall_rating = rating\<rparr>]\<rparr>)))"

text \<open>
  \<open>_run_test_coverage_analysis\<close>: the result is stored unless the analysis fails inside.
\<close>

definition run_test_coverage_analysis :: "session_env \<Rightarrow> nat \<Rightarrow> world \<Rightarrow> world" where
  "run_test_coverage_analysis env pid w0 =
     (let w = w0\<lparr>calls := calls w0 @ [TestCoverage pid]\<rparr>
      in if env_coverage_ok env then w\<lparr>db_test_coverage := db_test_coverage w @ [pid]\<rparr> else w)"


subsection \<open>One session: \<open>start_session\<close>\<close>

text \<open>
  The message of the error raised when the project already has a running session.
\<close>

definition busy_message :: "session_row \<Rightarrow> string" where
  "busy_message active_session =
     ''Cannot start new session: Session '' @ string_of_nat (row_session_number active_session)
     @ '' is already running (started ''
     @ (case row_started_at active_session of None \<Rightarrow> ''None'' | Some t \<Rightarrow> t)
     @ ''). Wait for it to complete or stop it first.''"

text \<open>Truth value of an optional model name: \<open>None\<close> and the empty string are false.\<close>

definition given :: "string option \<Rightarrow> bool" where
  "given m = (case m of None \<Rightarrow> False | Some s \<Rightarrow> s \<noteq> [])"

text \<open>
  \<open>self.stop_after_current.get(key, False)\<close>, and the two methods on the flag.
\<close>

definition dict_get :: "('k \<times> bool) list \<Rightarrow> 'k \<Rightarrow> bool" where
  "dict_get d k = (case map_of d k of None \<Rightarrow> False | Some b \<Rightarrow> b)"

definition set_stop_after_current :: "nat \<Rightarrow> bool \<Rightarrow> world \<Rightarrow> world" where
  "set_stop_after_current pid stop w =
     w\<lparr>stop_after_current := dict_set (stop_after_current w) pid stop\<rparr>"

definition should_stop_after_current :: "world \<Rightarrow> nat \<Rightarrow> bool" where
  "should_stop_after_current w pid = dict_get (stop_after_current w) pid"

text \<open>\<open>session_manager.set_current_logger\<close> on the manager registered for the session.\<close>

definition set_current_logger :: "nat \<Rightarrow> bool \<Rightarrow> world \<Rightarrow> world" where
  "set_current_logger sid present w =
     w\<lparr>session_managers :=
         map (\<lambda>(k, m). if k = sid then (k, m\<lparr>current_logger := present\<rparr>) else (k, m))
           (session_managers w)\<rparr>"

text \<open>
  The part of the guarded block after the agent run has returned: the final status is
  stored, then the quality check and the coverage analysis are run according to the session
  type.
\<close>

definition after_agent ::
  "session_env \<Rightarrow> bool \<Rightarrow> SessionInfo \<Rightarrow> string \<Rightarrow> string \<Rightarrow> world \<Rightarrow> SessionInfo \<times> world"
where
  "after_agent env is_initializer session_info status response w =
     (let sid = si_session_id session_info;
          info1 = (if status = ''error''
                   then session_info\<lparr>si_status := ERROR, si_error_message := Some response\<rparr>
                   else session_info\<lparr>si_status := COMPLETED\<rparr>);
          w1 = (if status = ''error'' then end_session sid ERROR (Some response) None w
                else end_session sid COMPLETED None None w);
          w2 = (if \<not> is_initializer then run_quality_check env sid w1 else w1);
          w3 = (if is_initializer \<and> status \<noteq> ''error''
                then run_test_coverage_analysis env (si_project_id session_info) w2 else w2)
      in (info1, set_current_logger sid False w3))"

text \<open>
  The first steps of the \<open>try\<close>: start the sandbox (\<open>await sandbox.start()\<close>) and create the
  logger, mark the session running in the store (\<open>await db.start_session\<close>), and publish
  \<open>session_started\<close>. A step that raises ends the body there.
\<close>

definition begin_session ::
  "session_env \<Rightarrow> SessionInfo \<Rightarrow> world \<Rightarrow> (raised + SessionInfo) \<times> world"
where
  "begin_session env session_info w =
     (let sid = si_session_id session_info; pid = si_project_id session_info in
      case env_sandbox_start env of
        Some (StartSandbox e) \<Rightarrow> (Inl e, w)
      | _ \<Rightarrow>
         (let w1 = set_current_logger sid True w;
              w2 = db_start_session sid (env_now env) w1;
              info2 = session_info\<lparr>si_status := RUNNING\<rparr>;
              w3 = emit pid ''session_started'' w2
          in (Inr info2, w3)))"

text \<open>
  The rest of the \<open>try\<close>: create the client, run the agent, and finish.
\<close>

definition continue_session ::
  "session_env \<Rightarrow> bool \<Rightarrow> SessionInfo \<Rightarrow> world \<Rightarrow> (raised + SessionInfo) \<times> world"
where
  "continue_session env is_initializer info2 w3 =
     (let pid = si_project_id info2 in
      case env_client env of
        Some e \<Rightarrow> (Inl e, w3)
      | None \<Rightarrow>
         (let w4 = w3\<lparr>db_progress := (db_progress w3)(pid := env_progress_after env)\<rparr>;
              w5 = (if env_stop_requested env then set_stop_after_current pid True w4
                    else w4)
          in case env_agent env of
               Inl e \<Rightarrow> (Inl e, w5)
             | Inr (status, response) \<Rightarrow>
                 (case after_agent env is_initializer info2 status response w5 of
                    (info, w6) \<Rightarrow> (Inr info, w6))))"

text \<open>The body of the \<open>try\<close>.\<close>

definition guarded_block ::
  "session_env \<Rightarrow> bool \<Rightarrow> SessionInfo \<Rightarrow> world \<Rightarrow> (raised + SessionInfo) \<times> world"
where
  "guarded_block env is_initializer session_info w =
     (case begin_session env session_info w of
        (Inl e, w') \<Rightarrow> (Inl e, w')
      | (Inr info2, w3) \<Rightarrow> continue_session env is_initializer info2 w3)"

text \<open>
  The two \<open>except\<close> clauses, \<open>except KeyboardInterrupt\<close> and \<open>except Exception\<close>: each stores
  the terminal status with \<open>db.end_session\<close>, and what that call raises leaves the clause.
  What neither clause names is not caught.
\<close>

definition handle_raised ::
  "session_env \<Rightarrow> raised \<Rightarrow> SessionInfo \<Rightarrow> world \<Rightarrow> (error + SessionInfo) \<times> world"
where
  "handle_raised env e session_info w =
     (let sid = si_session_id session_info in
      case e of
        KeyboardInterrupt \<Rightarrow>
          (case env_handler_end_session env of
             Some e' \<Rightarrow> (Inl (Uncaught e'), w)
           | None \<Rightarrow>
               (Inr (session_info\<lparr>si_status := INTERRUPTED\<rparr>),
                set_current_logger sid False
                  (end_session sid INTERRUPTED None (Some ''User interrupted'') w)))
      | Exception msg \<Rightarrow>
          (case env_handler_end_session env of
             Some e' \<Rightarrow> (Inl (Uncaught e'), w)
           | None \<Rightarrow>
               (Inr (session_info\<lparr>si_status := ERROR, si_error_message := Some msg\<rparr>),
                end_session sid ERROR (Some msg) None w))
      | CancelledError \<Rightarrow> (Inl (Uncaught CancelledError), w)
      | SystemExit \<Rightarrow> (Inl (Uncaught SystemExit), w))"

text \<open>The \<open>try\<close> with its \<open>except\<close> clauses, and the \<open>finally\<close> clause.\<close>

definition try_except ::
  "session_env \<Rightarrow> bool \<Rightarrow> SessionInfo \<Rightarrow> world \<Rightarrow> (error + SessionInfo) \<times> world"
where
  "try_except env is_initializer session_info w =
     (case guarded_block env is_initializer session_info w of
        (Inr info, w') \<Rightarrow> (Inr info, w')
      | (Inl e, w') \<Rightarrow> handle_raised env e session_info w')"

definition finally_clause :: "nat \<Rightarrow> world \<Rightarrow> world" where
  "finally_clause sid w =
     w\<lparr>session_managers := filter (\<lambda>(k, m). k \<noteq> sid) (session_managers w)\<rparr>"

text \<open>
  The part of \<open>start_session\<close> before the sandbox is created: the project is looked up, the
  admission check is made, the session type is determined, the session row is allocated in
  status \<open>pending\<close>, and the session manager is registered. The number of epics is read from
  the progress of the project.
\<close>

definition admit ::
  "nat \<Rightarrow> string option \<Rightarrow> string option \<Rightarrow> world \<Rightarrow> (error + bool \<times> SessionInfo) \<times> world"
where
  "admit pid initializer_model coding_model w =
     (case db_projects w pid of
        None \<Rightarrow> (Inl (ValueError (''Project not found: '' @ string_of_nat pid)), w)
      | Some project_name \<Rightarrow>
         (case get_active_session w pid of
            Some active_session \<Rightarrow> (Inl (ValueError (busy_message active_session)), w)
          | None \<Rightarrow>
             (let is_initializer = (total_epics (db_progress w pid) = 0) in
              if is_initializer \<and> \<not> given initializer_model
              then (Inl (ValueError ''initializer_model required for first session''), w)
              else if \<not> is_initializer \<and> \<not> given coding_model
              then (Inl (ValueError ''coding_model required for coding sessions''), w)
              else
                (let session_type = (if is_initializer then INITIALIZER else CODING);
                     current_model = the (if is_initializer then initializer_model
                                          else coding_model);
                     session_number = get_next_session_number w pid
                 in case create_session pid session_number session_type current_model w of
                      Inl UniqueViolationError \<Rightarrow>
                        (Inl (ValueError (''Session '' @ string_of_nat session_number
                           @ '' already exists for this project. ''
                           @ ''Another session may have started concurrently. Please try again.'')),
                         w)
                    | Inr (session, w1) \<Rightarrow>
                        (let sid = row_id session;
                             session_info =
                               \<lparr>si_session_id = sid, si_project_id = pid,
                                si_session_number = row_session_number session,
                                si_session_type = session_type, si_model = current_model,
                                si_status = PENDING, si_error_message = None\<rparr>;
                             w2 = w1\<lparr>session_managers :=
                                    dict_set (session_managers w1) sid
                                      \<lparr>interrupted = False, current_logger = False\<rparr>\<rparr>
                         in (Inr (is_initializer, session_info), w2))))))"

text \<open>
  \<open>start_session\<close>. Left out: the project directory, the sandbox configuration, the metrics
  and the time stamps of \<open>SessionInfo\<close>. The sandbox object is created between the allocation
  of the row and the \<open>try\<close>: what that raises reaches the caller as it is, with the row and
  the registered manager left behind. What the \<open>try\<close> statement raises reaches the caller
  after the \<open>finally\<close> clause.
\<close>

definition start_session ::
  "session_env \<Rightarrow> nat \<Rightarrow> string option \<Rightarrow> string option \<Rightarrow> world \<Rightarrow> (error + SessionInfo) \<times> world"
where
  "start_session env pid initializer_model coding_model w =
     (case admit pid initializer_model coding_model w of
        (Inl e, w') \<Rightarrow> (Inl e, w')
      | (Inr (is_initializer, session_info), w2) \<Rightarrow>
          (case env_sandbox_start env of
             Some (CreateSandbox e) \<Rightarrow> (Inl (Uncaught e), w2)
           | _ \<Rightarrow>
              (case try_except env is_initializer session_info w2 of
                 (r, w3) \<Rightarrow> (r, finally_clause (si_session_id session_info) w3))))"

subsection \<open>Stopping a session\<close>

text \<open>
  \<open>stop_session\<close>: only a session with a manager in the registry is stopped.
\<close>

definition stop_session :: "nat \<Rightarrow> string \<Rightarrow> world \<Rightarrow> bool \<times> world" where
  "stop_session sid reason w =
     (case map_of (session_managers w) sid of
        Some manager \<Rightarrow>
          (True,
           end_session sid INTERRUPTED None (Some reason)
             (w\<lparr>session_managers :=
                  dict_set (session_managers w) sid (manager\<lparr>interrupted := True\<rparr>)\<rparr>))
      | None \<Rightarrow> (False, w))"


subsection \<open>The coding loop: \<open>start_coding_sessions\<close>\<close>

text \<open>
  The loops below run one session per element of a list of session environments. A loop
  that needs a further session when the list is used up has not finished: its result is
  \<open>None\<close>.
\<close>

definition reached :: "nat option \<Rightarrow> nat \<Rightarrow> bool" where
  "reached max_iterations iteration =
     (case max_iterations of None \<Rightarrow> False | Some m \<Rightarrow> iteration \<ge> m)"

text \<open>
  The checks at the top of an iteration of the coding loop, before a session is started:
  \<open>Some\<close> is the state in which the loop breaks, \<open>None\<close> means the iteration goes on.
\<close>

definition coding_loop_break :: "nat \<Rightarrow> nat option \<Rightarrow> nat \<Rightarrow> world \<Rightarrow> world option" where
  "coding_loop_break pid max_iterations iteration w =
     (if reached max_iterations iteration then Some w
      else if dict_get (stop_after_current w) pid
      then Some (w\<lparr>stop_after_current := dict_set (stop_after_current w) pid False\<rparr>)
      else (let progress = db_progress w pid in
            if completed_epics progress = total_epics progress \<and> total_epics progress > 0
            then Some (emit pid ''all_epics_complete'' w)
            else None))"

text \<open>
  The \<open>while True\<close> loop of \<open>start_coding_sessions\<close>.
\<close>

fun coding_loop ::
  "session_env list \<Rightarrow> nat \<Rightarrow> string \<Rightarrow> nat option \<Rightarrow> nat \<Rightarrow> SessionInfo option \<Rightarrow> world \<Rightarrow>
   (error + SessionInfo option) option \<times> world"
where
  "coding_loop [] pid coding_model max_iterations iteration last_session w =
     (case coding_loop_break pid max_iterations iteration w of
        Some w' \<Rightarrow> (Some (Inr last_session), w')
      | None \<Rightarrow> (None, w))"
| "coding_loop (env # envs) pid coding_model max_iterations iteration last_session w =
     (case coding_loop_break pid max_iterations iteration w of
        Some w' \<Rightarrow> (Some (Inr last_session), w')
      | None \<Rightarrow>
         (let w1 = (if iteration + 1 > 1 then emit pid ''auto_continue_delay'' w else w) in
          case start_session env pid None (Some coding_model) w1 of
            (Inl e, w2) \<Rightarrow> (Some (Inl e), w2)
          | (Inr session, w2) \<Rightarrow>
              if si_status session = ERROR \<or> si_status session = INTERRUPTED
              then (Some (Inr (Some session)), w2)
              else (let progress = db_progress w2 pid in
                    if total_tasks progress > 0 \<and> completed_tasks progress \<ge> total_tasks progress
                    then (Some (Inr (Some session)),
                          emit pid ''project_complete'' (mark_project_complete pid w2))
                    else coding_loop envs pid coding_model max_iterations (iteration + 1)
                           (Some session) w2)))"

text \<open>
  \<open>start_coding_sessions\<close>; \<open>default_model\<close> stands for \<open>config.models.coding\<close>.
\<close>

definition start_coding_sessions ::
  "session_env list \<Rightarrow> string \<Rightarrow> nat \<Rightarrow> string option \<Rightarrow> nat option \<Rightarrow> world \<Rightarrow>
   (error + SessionInfo option) option \<times> world"
where
  "start_coding_sessions envs default_model pid coding_model max_iterations w =
     (case db_projects w pid of
        None \<Rightarrow> (Some (Inl (ValueError (''Project not found: '' @ string_of_nat pid))), w)
      | Some project \<Rightarrow>
          if total_epics (db_progress w pid) = 0
          then (Some (Inl (ValueError
                  ''Project not initialized. Run start_initialization() first.'')), w)
          else (let model = (if given coding_model then the coding_model else default_model);
                    normalized = (if max_iterations = None \<or> max_iterations = Some 0 then None
                                  else max_iterations)
                in coding_loop envs pid model normalized 0 None w))"

text \<open>
  Whether a clause \<open>except Exception\<close> of a caller catches what \<open>start_session\<close> raises.
\<close>

definition is_exception :: "error \<Rightarrow> bool" where
  "is_exception e =
     (case e of
        ValueError msg \<Rightarrow> True
      | Uncaught KeyboardInterrupt \<Rightarrow> False
      | Uncaught (Exception msg) \<Rightarrow> True
      | Uncaught CancelledError \<Rightarrow> False
      | Uncaught SystemExit \<Rightarrow> False)"

text \<open>
  \<open>run_coding\<close> of the \<open>/coding/start\<close> endpoint: it awaits the coding loop and publishes the
  outcome. \<open>last_session.to_dict()\<close> raises when the loop returns no session, which ends in
  the error event like any other exception of class \<open>Exception\<close>; what is outside that class
  ends the task without an event. The flag tells whether the task has finished.
\<close>

definition run_coding ::
  "session_env list \<Rightarrow> string \<Rightarrow> nat \<Rightarrow> string option \<Rightarrow> nat option \<Rightarrow> world \<Rightarrow> bool \<times> world"
where
  "run_coding envs default_model pid coding_model max_iterations w =
     (case start_coding_sessions envs default_model pid coding_model max_iterations w of
        (None, w') \<Rightarrow> (False, w')
      | (Some (Inl e), w') \<Rightarrow>
          (True, if is_exception e then notify_project_update pid ''coding_sessions_error'' w'
                 else w')
      | (Some (Inr None), w') \<Rightarrow> (True, notify_project_update pid ''coding_sessions_error'' w')
      | (Some (Inr (Some last_session)), w') \<Rightarrow>
          (True, notify_project_update pid ''coding_sessions_complete'' w'))"

subsection \<open>The loop of \<open>orchestrate_agent\<close> (command line)\<close>

text \<open>
  The \<open>while True\<close> loop of \<open>orchestrate_agent\<close>, for a project that exists, inside its
  \<open>try\<close> with the clause \<open>except KeyboardInterrupt\<close>, after which the last session is
  returned.
\<close>

fun orchestrate_agent_loop ::
  "session_env list \<Rightarrow> nat \<Rightarrow> string option \<Rightarrow> string option \<Rightarrow> nat option \<Rightarrow> nat \<Rightarrow>
   SessionInfo option \<Rightarrow> world \<Rightarrow> (error + SessionInfo option) option \<times> world"
where
  "orchestrate_agent_loop envs pid initializer_model coding_model max_iterations iteration
     last_session w =
     (if reached max_iterations iteration then (Some (Inr last_session), w)
      else (case envs of
              [] \<Rightarrow> (None, w)
            | env # rest \<Rightarrow>
               (case start_session env pid initializer_model coding_model w of
                  (Inl e, w1) \<Rightarrow>
                    if e = Uncaught KeyboardInterrupt then (Some (Inr last_session), w1)
                    else (Some (Inl e), w1)
                | (Inr session, w1) \<Rightarrow>
                    if si_status session = ERROR then (Some (Inr (Some session)), w1)
                    else if si_status session = INTERRUPTED then (Some (Inr (Some session)), w1)
                    else orchestrate_agent_loop rest pid initializer_model coding_model
                           max_iterations (iteration + 1) (Some session) w1)))"

definition orchestrate_agent ::
  "session_env list \<Rightarrow> nat \<Rightarrow> string option \<Rightarrow> string option \<Rightarrow> nat option \<Rightarrow> world \<Rightarrow>
   (error + SessionInfo option) option \<times> world"
where
  "orchestrate_agent envs pid initializer_model coding_model max_iterations w =
     orchestrate_agent_loop envs pid initializer_model coding_model max_iterations 0 None w"

subsection \<open>The auto-continue loop of the legacy endpoint \<open>/sessions/start\<close>\<close>

text \<open>
  The loop of \<open>run_session\<close> with \<open>auto_continue\<close>: it publishes its events itself; an
  exception of class \<open>Exception\<close> raised by \<open>start_session\<close> ends in \<open>session_error\<close>,
  anything else it raises ends the task without an event.
\<close>

fun legacy_loop ::
  "session_env list \<Rightarrow> nat \<Rightarrow> string \<Rightarrow> string \<Rightarrow> nat option \<Rightarrow> nat \<Rightarrow> world \<Rightarrow> bool \<times> world"
where
  "legacy_loop envs pid initializer_model coding_model max_iterations iteration w =
     (if reached max_iterations iteration
      then (True, notify_project_update pid ''auto_continue_stopped'' w)
      else (case envs of
              [] \<Rightarrow> (False, w)
            | env # rest \<Rightarrow>
               (let w1 = (if iteration + 1 > 1 then notify_project_update pid ''auto_continue_delay'' w
                          else w) in
                case start_session env pid (Some initializer_model) (Some coding_model) w1 of
                  (Inl e, w2) \<Rightarrow>
                    (True, if is_exception e then notify_project_update pid ''session_error'' w2
                           else w2)
                | (Inr session, w2) \<Rightarrow>
                    (let w3 = notify_project_update pid ''session_completed'' w2 in
                     if si_status session = ERROR
                     then (True, notify_project_update pid ''auto_continue_stopped'' w3)
                     else if si_status session = INTERRUPTED
                     then (True, notify_project_update pid ''auto_continue_stopped'' w3)
                     else legacy_loop rest pid initializer_model coding_model max_iterations
                            (iteration + 1) w3))))"

subsection \<open>Notions used to state the properties of the orchestrator\<close>

text \<open>
  The running sessions of a project in a content of the \<open>sessions\<close> table.
\<close>

definition running_of :: "session_row list \<Rightarrow> nat \<Rightarrow> session_row list" where
  "running_of rows pid = filter (\<lambda>r. row_project_id r = pid \<and> row_status r = RUNNING) rows"

text \<open>
  The invariant: no project has more than one running session.
\<close>

definition at_most_one_running :: "session_row list \<Rightarrow> bool" where
  "at_most_one_running rows =
     list_all (\<lambda>r. length (running_of rows (row_project_id r)) \<le> 1) rows"

text \<open>
  The first step of the guarded block that raises, if any.
\<close>

definition first_raised :: "session_env \<Rightarrow> raised option" where
  "first_raised env =
     (case env_sandbox_start env of
        Some (StartSandbox e) \<Rightarrow> Some e
      | _ \<Rightarrow>
         (case env_client env of
            Some e \<Rightarrow> Some e
          | None \<Rightarrow> (case env_agent env of Inl e \<Rightarrow> Some e | Inr r \<Rightarrow> None)))"

text \<open>
  The sandbox object is created, so that the guarded block is entered.
\<close>

definition sandbox_created :: "session_env \<Rightarrow> bool" where
  "sandbox_created env =
     (case env_sandbox_start env of Some (CreateSandbox e) \<Rightarrow> False | _ \<Rightarrow> True)"

text \<open>
  The classes the two \<open>except\<close> clauses name: \<open>KeyboardInterrupt\<close> and \<open>Exception\<close>.
\<close>

definition caught :: "raised \<Rightarrow> bool" where
  "caught e =
     (case e of
        KeyboardInterrupt \<Rightarrow> True
      | Exception msg \<Rightarrow> True
      | CancelledError \<Rightarrow> False
      | SystemExit \<Rightarrow> False)"

text \<open>
  What \<open>start_session\<close> raises to its caller once the row is allocated, if anything: what
  creating the sandbox object raises; what a step of the guarded block raises and no clause
  catches; what the store write of the catching clause raises.
\<close>

definition raises :: "session_env \<Rightarrow> raised option" where
  "raises env =
     (case env_sandbox_start env of
        Some (CreateSandbox e) \<Rightarrow> Some e
      | _ \<Rightarrow>
         (case first_raised env of
            None \<Rightarrow> None
          | Some e \<Rightarrow> if caught e then env_handler_end_session env else Some e))"

text \<open>
  The call passes the checks that precede the allocation of a session row: the project
  exists, it has no running session, and the model of the session type is given.
\<close>

definition admitted :: "world \<Rightarrow> nat \<Rightarrow> string option \<Rightarrow> string option \<Rightarrow> bool" where
  "admitted w pid initializer_model coding_model =
     (db_projects w pid \<noteq> None \<and> get_active_session w pid = None \<and>
      (if total_epics (db_progress w pid) = 0 then given initializer_model
       else given coding_model))"

text \<open>
  The row as the \<open>except\<close> clause for the raised value stores it, and the versions of the
  row that the clause writes: none when the value is not caught or the write fails.
\<close>

definition ended_by :: "raised \<Rightarrow> session_row \<Rightarrow> session_row" where
  "ended_by e = (case e of
       KeyboardInterrupt \<Rightarrow> mark_ended INTERRUPTED None (Some ''User interrupted'')
     | Exception msg \<Rightarrow> mark_ended ERROR (Some msg) None
     | CancelledError \<Rightarrow> (\<lambda>x. x)
     | SystemExit \<Rightarrow> (\<lambda>x. x))"

definition handler_writes :: "session_env \<Rightarrow> raised \<Rightarrow> session_row \<Rightarrow> session_row list" where
  "handler_writes env e y =
     (if caught e \<and> env_handler_end_session env = None then [ended_by e y] else [])"

text \<open>
  The versions of the allocated row that \<open>start_session\<close> writes after the allocation, in
  order; the row of the session when \<open>start_session\<close> returns or raises; and the contents of
  the table after each of these writes.
\<close>

definition row_writes :: "session_env \<Rightarrow> session_row \<Rightarrow> session_row list" where
  "row_writes env x =
     (case env_sandbox_start env of
        Some (CreateSandbox e) \<Rightarrow> []
      | Some (StartSandbox e) \<Rightarrow> handler_writes env e x
      | None \<Rightarrow>
         mark_running (env_now env) x #
         (case first_raised env of
            Some e \<Rightarrow> handler_writes env e (mark_running (env_now env) x)
          | None \<Rightarrow>
             (case env_agent env of
                Inr (status, response) \<Rightarrow>
                  [if status = ''error''
                   then mark_ended ERROR (Some response) None (mark_running (env_now env) x)
                   else mark_ended COMPLETED None None (mark_running (env_now env) x)]
              | Inl e \<Rightarrow> [])))"

definition final_row :: "session_env \<Rightarrow> session_row \<Rightarrow> session_row" where
  "final_row env x = last (x # row_writes env x)"

definition snapshots :: "session_env \<Rightarrow> session_row list \<Rightarrow> session_row \<Rightarrow> session_row list list" where
  "snapshots env rows x = map (\<lambda>y. rows @ [y]) (row_writes env x)"

text \<open>
  \<open>is_initializer\<close>: the project has no epics yet.
\<close>

definition is_first_session :: "world \<Rightarrow> nat \<Rightarrow> bool" where
  "is_first_session w pid = (total_epics (db_progress w pid) = 0)"

text \<open>
  The row that \<open>start_session\<close> allocates, the \<open>SessionInfo\<close> built from it, the state in
  which the guarded block starts, and the \<open>SessionInfo\<close> that is returned when
  \<open>start_session\<close> returns.
\<close>

definition allocated_row :: "world \<Rightarrow> nat \<Rightarrow> string option \<Rightarrow> string option \<Rightarrow> session_row" where
  "allocated_row w pid initializer_model coding_model =
     new_row (db_sessions w) pid (get_next_session_number w pid)
       (if is_first_session w pid then INITIALIZER else CODING)
       (the (if is_first_session w pid then initializer_model else coding_model))"

definition pending_info :: "session_row \<Rightarrow> SessionInfo" where
  "pending_info x =
     \<lparr>si_session_id = row_id x, si_project_id = row_project_id x,
      si_session_number = row_session_number x, si_session_type = row_session_type x,
      si_model = row_model x, si_status = PENDING, si_error_message = None\<rparr>"

definition registered :: "session_row \<Rightarrow> world \<Rightarrow> world" where
  "registered x w =
     (write_sessions (db_sessions w @ [x]) w)
       \<lparr>session_managers :=
          dict_set (session_managers w) (row_id x)
            \<lparr>interrupted = False, current_logger = False\<rparr>\<rparr>"

definition final_info :: "session_env \<Rightarrow> SessionInfo \<Rightarrow> SessionInfo" where
  "final_info env info =
     (case first_raised env of
        Some KeyboardInterrupt \<Rightarrow> info\<lparr>si_status := INTERRUPTED\<rparr>
      | Some (Exception msg) \<Rightarrow> info\<lparr>si_status := ERROR, si_error_message := Some msg\<rparr>
      | Some CancelledError \<Rightarrow> info
      | Some SystemExit \<Rightarrow> info
      | None \<Rightarrow>
         (case env_agent env of
            Inr (status, response) \<Rightarrow>
              (if status = ''error''
               then info\<lparr>si_status := ERROR, si_error_message := Some response\<rparr>
               else info\<lparr>si_status := COMPLETED\<rparr>)
          | Inl e \<Rightarrow> info))"

text \<open>
  \<open>str(active_session['started_at'])\<close>
\<close>

definition started_text :: "session_row \<Rightarrow> string" where
  "started_text r = (case row_started_at r of None \<Rightarrow> ''None'' | Some t \<Rightarrow> t)"

text \<open>
  An initialized project 1 with its completed initializer session, a session environment in
  which everything goes well, and the same project with a running session 1.
\<close>

definition example_world :: world where
  "example_world =
     \<lparr>db_projects = (\<lambda>p. if p = 1 then Some ''p1'' else None),
      db_progress = (\<lambda>p. \<lparr>completed_epics = 0, total_epics = 2,
                           completed_tasks = 1, total_tasks = 4\<rparr>),
      db_sessions =
        [\<lparr>row_id = 0, row_project_id = 1, row_session_number = 0,
          row_session_type = INITIALIZER, row_model = ''opus'', row_status = COMPLETED,
          row_started_at = Some ''2025-01-01 09:00:00'', row_error_message = None,
          row_interruption_reason = None\<rparr>],
      db_quality_checks = [], db_test_coverage = [1], db_completed_projects = [],
      session_managers = [], stop_after_current = [], event_callback = True,
      published = [], calls = [], sessions_history = []\<rparr>"

definition example_env :: session_env where
  "example_env =
     \<lparr>env_now = ''2025-01-01 10:00:00'', env_sandbox_start = None, env_client = None,
      env_agent = Inr (''continue'', ''done''), env_handler_end_session = None,
      env_progress_after = \<lparr>completed_epics = 0, total_epics = 2,
                             completed_tasks = 2, total_tasks = 4\<rparr>,
      env_jsonl_exists = True, env_quality = Some 8, env_coverage_ok = True,
      env_stop_requested = False\<rparr>"

definition running_row :: session_row where
  "running_row =
     \<lparr>row_id = 1, row_project_id = 1, row_session_number = 1,
      row_session_type = CODING, row_model = ''sonnet'', row_status = RUNNING,
      row_started_at = Some ''2025-01-01 10:00:00'', row_error_message = None,
      row_interruption_reason = None\<rparr>"

definition busy_world :: world where
  "busy_world =
     example_world\<lparr>db_sessions := db_sessions example_world @ [running_row],
                    session_managers := [(1, \<lparr>interrupted = False, current_logger = True\<rparr>)]\<rparr>"

text \<open>
  The trigger policy in the words of the specification: a multiple of 5 from 5 on, or no deep
  review yet from session 5 on, or 5 sessions or more since the last deep review, or a quick
  rating below 7.
\<close>

definition trigger_policy :: "nat \<Rightarrow> nat option \<Rightarrow> int \<Rightarrow> bool" where
  "trigger_policy n last_reviewed quality =
     ((n mod 5 = 0 \<and> n \<ge> 5)
      \<or> (last_reviewed = None \<and> n \<ge> 5)
      \<or> (case last_reviewed of None \<Rightarrow> False | Some l \<Rightarrow> int n - int l \<ge> 5)
      \<or> quality < 7)"

text \<open>A project with sessions 0, 5 and 11, and a deep review recorded for session 5.\<close>

definition review_world :: world where
  "review_world =
     \<lparr>db_projects = (\<lambda>p. if p = 1 then Some ''p1'' else None),
      db_progress = (\<lambda>p. \<lparr>completed_epics = 0, total_epics = 2,
                           completed_tasks = 1, total_tasks = 4\<rparr>),
      db_sessions =
        [\<lparr>row_id = 0, row_project_id = 1, row_session_number = 0,
          row_session_type = INITIALIZER, row_model = ''opus'', row_status = COMPLETED,
          row_started_at = None, row_error_message = None, row_interruption_reason = None\<rparr>,
         \<lparr>row_id = 1, row_project_id = 1, row_session_number = 5,
          row_session_type = CODING, row_model = ''sonnet'', row_status = COMPLETED,
          row_started_at = None, row_error_message = None, row_interruption_reason = None\<rparr>,
         \<lparr>row_id = 2, row_project_id = 1, row_session_number = 11,
          row_session_type = CODING, row_model = ''sonnet'', row_status = COMPLETED,
          row_started_at = None, row_error_message = None, row_interruption_reason = None\<rparr>],
      db_quality_checks =
        [\<lparr>qc_session_id = 1, qc_check_type = ''deep'', qc_overall_rating = 8\<rparr>],
      db_test_coverage = [1], db_completed_projects = [],
      session_managers = [], stop_after_current = [], event_callback = True,
      published = [], calls = [], sessions_history = []\<rparr>"




text \<open>
  Two calls of \<open>start_session\<close> for one project that overlap, as two tasks of the API do
  (the endpoints spawn a task per request): the first call allocates its row and awaits the
  start of its sandbox; meanwhile the second call makes its admission check and allocates its
  row; then each call, its sandbox started, marks its row running. The result is the state
  in which both calls are about to run their agents, or \<open>None\<close> when a call has raised
  before.
\<close>

definition overlapping_calls ::
  "session_env \<Rightarrow> session_env \<Rightarrow> nat \<Rightarrow> string option \<Rightarrow> string option \<Rightarrow> world \<Rightarrow>
   world option"
where
  "overlapping_calls env_a env_b pid initializer_model coding_model w =
     (case admit pid initializer_model coding_model w of
        (Inl e, w1) \<Rightarrow> None
      | (Inr (is_initializer_a, info_a), w1) \<Rightarrow>
         (case admit pid initializer_model coding_model w1 of
            (Inl e, w2) \<Rightarrow> None
          | (Inr (is_initializer_b, info_b), w2) \<Rightarrow>
             (case begin_session env_a info_a w2 of
                (Inl e, w3) \<Rightarrow> None
              | (Inr running_a, w3) \<Rightarrow>
                 (case begin_session env_b info_b w3 of
                    (Inl e, w4) \<Rightarrow> None
                  | (Inr running_b, w4) \<Rightarrow> Some w4))))"

text \<open>A project without epics and without sessions: its next session is the initializer.\<close>

definition new_project_world :: world where
  "new_project_world =
     example_world\<lparr>db_progress := (\<lambda>p. \<lparr>completed_epics = 0, total_epics = 0,
                                         completed_tasks = 0, total_tasks = 0\<rparr>),
                    db_sessions := [], db_test_coverage := []\<rparr>"

text \<open>A session that is running in the store while no manager is registered for it.\<close>

definition orphan_world :: world where
  "orphan_world = busy_world\<lparr>session_managers := []\<rparr>"

text \<open>The event types the coding loop and the sessions it runs publish.\<close>

definition loop_event_types :: "string set" where
  "loop_event_types =
     {''session_started'', ''all_epics_complete'', ''auto_continue_delay'', ''project_complete''}"

text \<open>The event types published between two states.\<close>

definition event_types :: "world \<Rightarrow> string set" where
  "event_types w = set (map snd (published w))"

text \<open>
  The graceful stop is requested while the session runs; and a state with the flag set.
\<close>

definition stop_env :: session_env where
  "stop_env = example_env\<lparr>env_stop_requested := True\<rparr>"

definition flagged_world :: world where
  "flagged_world = set_stop_after_current 1 True example_world"

text \<open>What a test observes of a state: the session statuses, the stop flags, the events.\<close>

definition observed ::
  "world \<Rightarrow> SessionStatus list \<times> (nat \<times> bool) list \<times> (nat \<times> string) list" where
  "observed w = (map row_status (db_sessions w), stop_after_current w, published w)"

section \<open>Applying a proposal (api/prompt\_improvements\_routes.py)\<close>

datatype http_error = HTTPException nat string

text \<open>A row of the prompt proposals table, as far as applying a proposal reads and writes it.\<close>

record proposal_row =
  pr_status :: string
  pr_applied_by :: "string option"
  pr_applied_to_version :: "string option"

text \<open>\<open>ApplyProposalResponse\<close>\<close>

record apply_proposal_response =
  ar_success :: bool
  ar_message :: string
  ar_git_commit_hash :: "string option"
  ar_version_id :: "string option"

text \<open>
  Modelled from the spec: \<open>update_prompt_proposal_status\<close> of the store, which is not among
  the sources: the proposal takes the given status and the given application marks.
\<close>

definition update_prompt_proposal_status ::
  "nat \<Rightarrow> string \<Rightarrow> string \<Rightarrow> string \<Rightarrow> (nat \<Rightarrow> proposal_row option) \<Rightarrow> (nat \<Rightarrow> proposal_row option)"
where
  "update_prompt_proposal_status uuid status applied_by applied_to_version proposals =
     (case proposals uuid of
        None \<Rightarrow> proposals
      | Some p \<Rightarrow>
          proposals(uuid \<mapsto> p\<lparr>pr_status := status, pr_applied_by := Some applied_by,
                                  pr_applied_to_version := Some applied_to_version\<rparr>))"

text \<open>
  \<open>apply_proposal\<close> of the routes. \<open>parse_uuid\<close> stands for the \<open>UUID\<close> constructor, which
  raises \<open>ValueError\<close> (here \<open>None\<close>) on a malformed identifier; \<open>get_prompt_proposal\<close> of the
  store is the lookup in the table.
\<close>

definition apply_proposal ::
  "(string \<Rightarrow> nat option) \<Rightarrow> string \<Rightarrow> (nat \<Rightarrow> proposal_row option) \<Rightarrow>
   (http_error + apply_proposal_response) \<times> (nat \<Rightarrow> proposal_row option)"
where
  "apply_proposal parse_uuid proposal_id proposals =
     (case parse_uuid proposal_id of
        None \<Rightarrow> (Inl (HTTPException 400 ''Invalid proposal ID format''), proposals)
      | Some proposal_uuid \<Rightarrow>
         (case proposals proposal_uuid of
            None \<Rightarrow> (Inl (HTTPException 404 ''Proposal not found''), proposals)
          | Some proposal \<Rightarrow>
              if pr_status proposal \<noteq> ''accepted''
              then (Inl (HTTPException 400 ''Proposal must be 'accepted' before applying''),
                    proposals)
              else (Inr \<lparr>ar_success = True,
                         ar_message =
                           ''Proposal marked as implemented (manual file changes required)'',
                         ar_git_commit_hash = None, ar_version_id = None\<rparr>,
                    update_prompt_proposal_status proposal_uuid ''implemented'' ''system''
                      ''pending'' proposals)))"

text \<open>A table with an accepted proposal 1 and a proposed proposal 2.\<close>

definition example_proposals :: "nat \<Rightarrow> proposal_row option" where
  "example_proposals =
     (\<lambda>u. if u = 1 then Some \<lparr>pr_status = ''accepted'', pr_applied_by = None,
                               pr_applied_to_version = None\<rparr>
          else if u = 2 then Some \<lparr>pr_status = ''proposed'', pr_applied_by = None,
                                    pr_applied_to_version = None\<rparr>
          else None)"

definition example_parse_uuid :: "string \<Rightarrow> nat option" where
  "example_parse_uuid s =
     (if s = ''00000000-0000-0000-0000-000000000001'' then Some 1
      else if s = ''00000000-0000-0000-0000-000000000002'' then Some 2
      else if s = ''00000000-0000-0000-0000-000000000003'' then Some 3
      else None)"

section \<open>Properties of the analyzer\<close>

text \<open>
  C3, as stated: the confidence of a proposal would follow the buckets "at most 2 sessions
  give 3, at most 3 give 5, at most 5 give 7, else 9". A theme mentioned by two sessions of
  average quality 7 gets confidence 5 from the code, not 3.
\<close>

theorem C3_spec_buckets_counterexample:
  "confidence_level (fallback_proposal ''docker'' ''testing'' example_theme)
     \<noteq> spec_confidence spec_bucket example_theme False"
  by (simp add: fallback_proposal_def calculate_theme_confidence_def spec_confidence_def
      spec_bucket_def quality_adjustment_def clamp_1_10_def example_theme_def Let_def)

text \<open>
  C3, amended: the confidence of a theme-based proposal is the bucket value of the theme's
  unique-session count, where 5 or more sessions give 9, 3 or more give 7, 2 or more give 5
  and fewer give 3, plus 1 when the average session quality is at least 9, minus 1 when it
  is below 6, plus 1 when the proposal is Claude-enhanced, clamped to the range 1 to 10.
\<close>

theorem C3_confidence_amended:
  "confidence_level (fallback_proposal sandbox_type name td)
     = spec_confidence lower_bound_bucket td False
   \<and> confidence_level (claude_proposal sandbox_type name td diff)
     = spec_confidence lower_bound_bucket td True
   \<and> 1 \<le> spec_confidence lower_bound_bucket td claude_enhanced
   \<and> spec_confidence lower_bound_bucket td claude_enhanced \<le> 10"
  by (simp add: fallback_proposal_def claude_proposal_def calculate_theme_confidence_def
      spec_confidence_def lower_bound_bucket_def quality_adjustment_def clamp_1_10_def Let_def)

subsection \<open>Aggregation and proposal emission\<close>

lemma map_of_dict_set: "map_of (dict_set d k v) = (map_of d)(k \<mapsto> v)"
  by (induction d k v rule: dict_set.induct) (auto simp: fun_eq_iff)

lemma keys_dict_set: "set (map fst (dict_set d k v)) = insert k (set (map fst d))"
  by (induction d k v rule: dict_set.induct) auto

lemma distinct_dict_set: "distinct (map fst d) \<Longrightarrow> distinct (map fst (dict_set d k v))"
proof (induction d k v rule: dict_set.induct)
  case (1 k v)
  then show ?case by simp
next
  case (2 k' v' kvs k v)
  then show ?case
    using keys_dict_set [of kvs k v] by auto
qed

lemma recs_of_add:
  "recs_of (add_to_theme rec si t themes) t' =
     (if t' = t then recs_of themes t @ [rec] else recs_of themes t')"
  by (simp add: recs_of_def add_to_theme_def map_of_dict_set Let_def theme_default_def
      split: option.splits)

lemma freq_of_add:
  "freq_of (add_to_theme rec si t themes) t' =
     (if t' = t then freq_of themes t + 1 else freq_of themes t')"
  by (simp add: freq_of_def add_to_theme_def map_of_dict_set Let_def theme_default_def
      split: option.splits)

lemma distinct_add: "distinct (map fst themes) \<Longrightarrow> distinct (map fst (add_to_theme rec si t themes))"
  by (simp add: add_to_theme_def Let_def distinct_dict_set)

lemma recs_of_fold_add:
  "distinct ts \<Longrightarrow>
   recs_of (fold (add_to_theme rec si) ts themes) t' =
     (if t' \<in> set ts then recs_of themes t' @ [rec] else recs_of themes t')"
  by (induction ts arbitrary: themes) (auto simp: recs_of_add)

lemma freq_of_fold_add:
  "distinct ts \<Longrightarrow>
   freq_of (fold (add_to_theme rec si) ts themes) t' =
     (if t' \<in> set ts then freq_of themes t' + 1 else freq_of themes t')"
  by (induction ts arbitrary: themes) (auto simp: freq_of_add)

lemma distinct_fold_add:
  "distinct (map fst themes) \<Longrightarrow> distinct (map fst (fold (add_to_theme rec si) ts themes))"
  by (induction ts arbitrary: themes) (auto simp: distinct_add)

lemma distinct_theme_keywords: "distinct (map fst theme_keywords)"
  by (simp add: theme_keywords_def)

lemma distinct_matched_themes: "distinct (matched_themes rec)"
  by (simp add: matched_themes_def Let_def distinct_map_filter distinct_theme_keywords)

lemma recs_of_process_rec:
  "recs_of (process_rec si rec themes) t =
     recs_of themes t @ (if t \<in> set (matched_themes rec) then [rec] else [])"
  by (simp add: process_rec_def recs_of_fold_add distinct_matched_themes)

lemma freq_of_process_rec:
  "freq_of (process_rec si rec themes) t =
     freq_of themes t + (if t \<in> set (matched_themes rec) then 1 else 0)"
  by (simp add: process_rec_def freq_of_fold_add distinct_matched_themes)

lemma distinct_process_rec:
  "distinct (map fst themes) \<Longrightarrow> distinct (map fst (process_rec si rec themes))"
  by (simp add: process_rec_def distinct_fold_add)

lemma recs_of_fold_process_rec:
  "recs_of (fold (process_rec si) recs themes) t =
     recs_of themes t @ filter (\<lambda>rec. t \<in> set (matched_themes rec)) recs"
  by (induction recs arbitrary: themes) (auto simp: recs_of_process_rec)

lemma freq_of_fold_process_rec:
  "freq_of (fold (process_rec si) recs themes) t =
     freq_of themes t + length (filter (\<lambda>rec. t \<in> set (matched_themes rec)) recs)"
  by (induction recs arbitrary: themes) (auto simp: freq_of_process_rec)

lemma distinct_fold_process_rec:
  "distinct (map fst themes) \<Longrightarrow> distinct (map fst (fold (process_rec si) recs themes))"
  by (induction recs arbitrary: themes) (auto simp: distinct_process_rec)

lemma recs_of_fold_process_review:
  "recs_of (fold process_review reviews themes) t = recs_of themes t @ bucket_of reviews t"
  by (induction reviews arbitrary: themes)
     (auto simp: process_review_def recs_of_fold_process_rec bucket_of_def all_recommendations_def)

lemma freq_of_fold_process_review:
  "freq_of (fold process_review reviews themes) t = freq_of themes t + length (bucket_of reviews t)"
  by (induction reviews arbitrary: themes)
     (auto simp: process_review_def freq_of_fold_process_rec bucket_of_def all_recommendations_def)

lemma distinct_fold_process_review:
  "distinct (map fst themes) \<Longrightarrow> distinct (map fst (fold process_review reviews themes))"
  by (induction reviews arbitrary: themes)
     (auto simp: process_review_def distinct_fold_process_rec)

lemma recs_of_collect: "recs_of (collect_themes reviews) t = bucket_of reviews t"
  using recs_of_fold_process_review [of reviews "[]" t]
  by (simp add: collect_themes_def recs_of_def)

lemma freq_of_collect: "freq_of (collect_themes reviews) t = length (bucket_of reviews t)"
  using freq_of_fold_process_review [of reviews "[]" t]
  by (simp add: collect_themes_def freq_of_def)

lemma distinct_collect: "distinct (map fst (collect_themes reviews))"
  by (simp add: collect_themes_def distinct_fold_process_review)

lemma fst_format_theme: "fst (format_theme x) = fst x"
  by (cases x) (simp add: format_theme_def Let_def)

lemma keys_aggregate:
  "map fst (aggregate_recommendations reviews) =
     map fst (filter (\<lambda>(name, d). acc_frequency d > 0) (collect_themes reviews))"
  by (simp add: aggregate_recommendations_def fst_format_theme cong: map_cong)

lemma distinct_aggregate: "distinct (map fst (aggregate_recommendations reviews))"
  by (simp add: keys_aggregate distinct_map_filter distinct_collect)

lemma aggregate_entry:
  "(t, td) \<in> set (aggregate_recommendations reviews) \<longleftrightarrow>
     bucket_of reviews t \<noteq> [] \<and>
     (\<exists>d. map_of (collect_themes reviews) t = Some d \<and> td = snd (format_theme (t, d)))"
  (is "?L \<longleftrightarrow> ?R")
proof
  assume ?L
  then obtain x where x: "x \<in> set (collect_themes reviews)" "case x of (name, d) \<Rightarrow> acc_frequency d > 0"
    "(t, td) = format_theme x"
    unfolding aggregate_recommendations_def by auto
  obtain n d where nd: "x = (n, d)" by (cases x)
  from x(3) nd have n: "n = t" using fst_format_theme [of x] by (metis fst_conv)
  from x(1) nd n have m: "map_of (collect_themes reviews) t = Some d"
    using distinct_collect by simp
  from m have "acc_frequency d = length (bucket_of reviews t)"
    using freq_of_collect [of reviews t] by (simp add: freq_of_def)
  with x(2) nd have "bucket_of reviews t \<noteq> []" by auto
  moreover from x(3) nd n have "td = snd (format_theme (t, d))" by (metis snd_conv)
  ultimately show ?R using m by blast
next
  assume ?R
  then obtain d where ne: "bucket_of reviews t \<noteq> []"
    and m: "map_of (collect_themes reviews) t = Some d" and td: "td = snd (format_theme (t, d))"
    by blast
  from m have fr: "acc_frequency d = length (bucket_of reviews t)"
    using freq_of_collect [of reviews t] by (simp add: freq_of_def)
  from m have mem: "(t, d) \<in> set (collect_themes reviews)" by (rule map_of_SomeD)
  have "format_theme (t, d) = (t, td)"
    using td fst_format_theme [of "(t, d)"] by (metis fst_conv prod.collapse)
  moreover have "(t, d) \<in> set (filter (\<lambda>(name, d). acc_frequency d > 0) (collect_themes reviews))"
    using mem fr ne by simp
  ultimately show ?L
    unfolding aggregate_recommendations_def by (metis image_eqI set_map)
qed

lemma keywords_lower:
  "list_all (\<lambda>(t, keywords). list_all (\<lambda>k. lower k = k) keywords) theme_keywords"
  by code_simp

lemma keyword_lower:
  assumes "(t, keywords) \<in> set theme_keywords" and "k \<in> set keywords"
  shows "lower k = k"
proof -
  from keywords_lower assms(1) have "list_all (\<lambda>k. lower k = k) keywords"
    unfolding list_all_iff by blast
  with assms(2) show ?thesis unfolding list_all_iff by blast
qed

lemma theme_matches_iff:
  "theme_matches t rec \<longleftrightarrow>
     (\<exists>keywords. (t, keywords) \<in> set theme_keywords \<and> any_keyword_in keywords (lower rec))"
  (is "?L \<longleftrightarrow> ?R")
proof
  assume ?L
  then obtain kws k where a: "(t, kws) \<in> set theme_keywords" "k \<in> set kws"
    "sublist (lower k) (lower rec)"
    unfolding theme_matches_def list_ex_iff by blast
  from a have "sublist k (lower rec)" using keyword_lower [OF a(1) a(2)] by simp
  with a(1) a(2) show ?R unfolding any_keyword_in_def list_ex_iff by blast
next
  assume ?R
  then obtain kws k where a: "(t, kws) \<in> set theme_keywords" "k \<in> set kws"
    "sublist k (lower rec)"
    unfolding any_keyword_in_def list_ex_iff by blast
  from a have "sublist (lower k) (lower rec)" using keyword_lower [OF a(1) a(2)] by simp
  with a(1) a(2) show ?L unfolding theme_matches_def list_ex_iff by blast
qed

lemma matched_raw:
  "t \<in> set (map fst (filter (\<lambda>(theme, keywords). any_keyword_in keywords (lower rec)) theme_keywords))
     \<longleftrightarrow> theme_matches t rec"
  unfolding theme_matches_iff by force

lemma general_not_keyword: "\<not> theme_matches ''general'' rec"
  unfolding theme_matches_iff by (auto simp: theme_keywords_def)

lemma theme_matches_key:
  assumes "theme_matches t rec"
  shows "t \<in> set (map fst theme_keywords)"
proof -
  from assms obtain kws where "(t, kws) \<in> set theme_keywords"
    unfolding theme_matches_iff by blast
  then have "fst (t, kws) \<in> fst ` set theme_keywords" by (rule imageI)
  then show ?thesis by simp
qed

lemma list_ex_theme_matches:
  "list_ex (\<lambda>t'. theme_matches t' rec) (map fst theme_keywords) \<longleftrightarrow> (\<exists>t'. theme_matches t' rec)"
  unfolding list_ex_iff using theme_matches_key by blast

lemma matched_themes_iff: "t \<in> set (matched_themes rec) \<longleftrightarrow> in_theme t rec"
proof -
  define m where
    "m = map fst (filter (\<lambda>(theme, keywords). any_keyword_in keywords (lower rec)) theme_keywords)"
  have raw: "\<And>u. u \<in> set m \<longleftrightarrow> theme_matches u rec"
    unfolding m_def by (rule matched_raw)
  have mt: "matched_themes rec = (if m = [] then [''general''] else m)"
    unfolding m_def matched_themes_def Let_def by (rule refl)
  have none: "m = [] \<longleftrightarrow> \<not> (\<exists>t'. theme_matches t' rec)"
  proof
    assume e: "m = []"
    show "\<not> (\<exists>t'. theme_matches t' rec)"
    proof
      assume "\<exists>t'. theme_matches t' rec"
      then obtain t' where "theme_matches t' rec" ..
      then have "t' \<in> set m" by (simp only: raw)
      with e show False by simp
    qed
  next
    assume n: "\<not> (\<exists>t'. theme_matches t' rec)"
    have "set m = {}"
    proof (rule equals0I)
      fix u assume "u \<in> set m"
      then have "theme_matches u rec" by (simp only: raw)
      with n show False by blast
    qed
    then show "m = []" by (simp only: set_empty)
  qed
  show ?thesis
  proof (cases "m = []")
    case True
    with none have nm: "\<not> (\<exists>t'. theme_matches t' rec)" by blast
    from True mt have "t \<in> set (matched_themes rec) \<longleftrightarrow> t = ''general''" by simp
    also from nm have "\<dots> \<longleftrightarrow> in_theme t rec"
      unfolding in_theme_def list_ex_theme_matches by blast
    finally show ?thesis .
  next
    case False
    with none have ex: "\<exists>t'. theme_matches t' rec" by blast
    from False mt have "t \<in> set (matched_themes rec) \<longleftrightarrow> t \<in> set m" by simp
    also have "\<dots> \<longleftrightarrow> theme_matches t rec" by (rule raw)
    also from ex have "\<dots> \<longleftrightarrow> in_theme t rec"
      unfolding in_theme_def list_ex_theme_matches by blast
    finally show ?thesis .
  qed
qed

lemma bucket_of_in_theme: "bucket_of reviews t = filter (in_theme t) (all_recommendations reviews)"
  by (simp add: bucket_of_def matched_themes_iff)

lemma map_of_aggregate:
  "map_of (aggregate_recommendations reviews) t = Some td \<longleftrightarrow>
     (t, td) \<in> set (aggregate_recommendations reviews)"
  using distinct_aggregate by (simp add: map_of_eq_Some_iff)

lemma aggregate_td:
  assumes "(t, td) \<in> set (aggregate_recommendations reviews)"
  shows "recommendations td = bucket_of reviews t \<and> frequency td = length (bucket_of reviews t)"
proof -
  from assms obtain d where m: "map_of (collect_themes reviews) t = Some d"
    and td: "td = snd (format_theme (t, d))"
    unfolding aggregate_entry by blast
  from m have "acc_recommendations d = bucket_of reviews t"
    using recs_of_collect [of reviews t] by (simp add: recs_of_def)
  moreover from m have "acc_frequency d = length (bucket_of reviews t)"
    using freq_of_collect [of reviews t] by (simp add: freq_of_def)
  ultimately show ?thesis using td by (simp add: format_theme_def Let_def)
qed

lemma aggregate_present:
  assumes "bucket_of reviews t \<noteq> []"
  shows "\<exists>td. (t, td) \<in> set (aggregate_recommendations reviews)"
proof -
  from assms have "freq_of (collect_themes reviews) t \<noteq> 0" by (simp add: freq_of_collect)
  then obtain d where "map_of (collect_themes reviews) t = Some d"
    by (auto simp: freq_of_def split: option.splits)
  with assms show ?thesis unfolding aggregate_entry by blast
qed

lemma aggregate_absent:
  assumes "bucket_of reviews t = []"
  shows "map_of (aggregate_recommendations reviews) t = None"
proof (cases "map_of (aggregate_recommendations reviews) t")
  case None then show ?thesis .
next
  case (Some td)
  then have "(t, td) \<in> set (aggregate_recommendations reviews)" by (simp add: map_of_aggregate)
  with assms show ?thesis unfolding aggregate_entry by simp
qed

lemma recommendations_in_aggregate:
  "recommendations_in (aggregate_recommendations reviews) t = bucket_of reviews t"
proof (cases "bucket_of reviews t = []")
  case True
  then show ?thesis by (simp add: recommendations_in_def aggregate_absent)
next
  case False
  then obtain td where td: "(t, td) \<in> set (aggregate_recommendations reviews)"
    using aggregate_present by blast
  then have "map_of (aggregate_recommendations reviews) t = Some td" by (simp add: map_of_aggregate)
  with aggregate_td [OF td] show ?thesis by (simp add: recommendations_in_def)
qed

lemma frequency_in_aggregate:
  "frequency_in (aggregate_recommendations reviews) t = length (bucket_of reviews t)"
proof (cases "bucket_of reviews t = []")
  case True
  then show ?thesis by (simp add: frequency_in_def aggregate_absent)
next
  case False
  then obtain td where td: "(t, td) \<in> set (aggregate_recommendations reviews)"
    using aggregate_present by blast
  then have "map_of (aggregate_recommendations reviews) t = Some td" by (simp add: map_of_aggregate)
  with aggregate_td [OF td] show ?thesis by (simp add: frequency_in_def)
qed

lemma proposals_loop_themes:
  "map ev_theme (proposals_loop claude st used xs) =
     map fst (filter (\<lambda>(name, td). 2 \<le> frequency td) xs)"
proof (induction xs arbitrary: used)
  case Nil
  then show ?case by simp
next
  case (Cons x xs)
  obtain name td where x: "x = (name, td)" by (cases x)
  show ?case
    unfolding x
    by (simp add: Cons.IH claude_proposal_def fallback_proposal_def Let_def not_less
        split: option.splits)
qed

lemma distinct_keys_sort_key:
  "distinct (map fst (sort_key f xs)) = distinct (map fst xs)"
  by (simp add: distinct_map)

lemma proposal_themes_distinct:
  "distinct (map fst aggregated) \<Longrightarrow>
   distinct (map ev_theme (generate_proposals_from_deep_reviews claude st aggregated))"
  by (simp add: generate_proposals_from_deep_reviews_def proposals_loop_themes
      distinct_map_filter distinct_keys_sort_key)

lemma proposal_themes_set:
  assumes d: "distinct (map fst aggregated)"
  shows "set (map ev_theme (generate_proposals_from_deep_reviews claude st aggregated)) =
     {t. 2 \<le> frequency_in aggregated t}"
proof (rule set_eqI)
  fix t
  have eq: "set (map ev_theme (generate_proposals_from_deep_reviews claude st aggregated)) =
      fst ` set (filter (\<lambda>(name, td). 2 \<le> frequency td) aggregated)"
    unfolding generate_proposals_from_deep_reviews_def proposals_loop_themes
    by (simp only: set_map set_filter set_sort)
  show "t \<in> set (map ev_theme (generate_proposals_from_deep_reviews claude st aggregated)) \<longleftrightarrow>
        t \<in> {t. 2 \<le> frequency_in aggregated t}"
  proof
    assume "t \<in> set (map ev_theme (generate_proposals_from_deep_reviews claude st aggregated))"
    then have "t \<in> fst ` set (filter (\<lambda>(name, td). 2 \<le> frequency td) aggregated)"
      by (simp only: eq)
    then obtain x where x: "x \<in> set (filter (\<lambda>(name, td). 2 \<le> frequency td) aggregated)"
      and tx: "t = fst x" by (rule imageE)
    obtain u td where utd: "x = (u, td)" by (cases x)
    from x utd tx have mem: "(t, td) \<in> set aggregated" and fr: "2 \<le> frequency td" by simp_all
    from mem d have "map_of aggregated t = Some td" by simp
    with fr show "t \<in> {t. 2 \<le> frequency_in aggregated t}" by (simp add: frequency_in_def)
  next
    assume "t \<in> {t. 2 \<le> frequency_in aggregated t}"
    then have f: "2 \<le> frequency_in aggregated t" by simp
    show "t \<in> set (map ev_theme (generate_proposals_from_deep_reviews claude st aggregated))"
    proof (cases "map_of aggregated t")
      case None
      with f show ?thesis by (simp add: frequency_in_def)
    next
      case (Some td)
      with f have fr: "2 \<le> frequency td" by (simp add: frequency_in_def)
      from Some have "(t, td) \<in> set aggregated" by (rule map_of_SomeD)
      with fr have "(t, td) \<in> set (filter (\<lambda>(name, td). 2 \<le> frequency td) aggregated)" by simp
      then have "fst (t, td) \<in> fst ` set (filter (\<lambda>(name, td). 2 \<le> frequency td) aggregated)"
        by (rule imageI)
      then show ?thesis by (simp only: eq fst_conv)
    qed
  qed
qed

text \<open>
  C7: every recommendation string of every deep review lands in every theme of the fixed
  taxonomy one of whose keywords occurs in it (substring match, letter case ignored), and in
  \<open>general\<close> when no theme matches; the frequency of a theme is the number of
  recommendations that landed in it; and the emitted proposals are one per theme, for exactly
  the themes whose frequency is at least 2.
\<close>

theorem C7_buckets_and_proposals:
  "recommendations_in (aggregate_recommendations reviews) t
     = filter (in_theme t) (all_recommendations reviews)
   \<and> frequency_in (aggregate_recommendations reviews) t
     = length (filter (in_theme t) (all_recommendations reviews))
   \<and> distinct (map ev_theme
       (generate_proposals_from_deep_reviews claude st (aggregate_recommendations reviews)))
   \<and> set (map ev_theme
       (generate_proposals_from_deep_reviews claude st (aggregate_recommendations reviews)))
     = {t. 2 \<le> length (filter (in_theme t) (all_recommendations reviews))}"
  using proposal_themes_set [OF distinct_aggregate, of claude st reviews]
    proposal_themes_distinct [OF distinct_aggregate, of claude st reviews]
  by (simp add: recommendations_in_aggregate frequency_in_aggregate bucket_of_in_theme)

text \<open>
  The same on the two example reviews: \<open>browser_verification\<close> is mentioned twice and
  yields the one proposal, \<open>general\<close> is mentioned once and yields none.
\<close>

lemma example_frequencies:
  "length (filter (in_theme ''browser_verification'') (all_recommendations example_reviews)) = 2"
  "length (filter (in_theme ''general'') (all_recommendations example_reviews)) = 1"
  by code_simp+

theorem C7_buckets_and_proposals_witness:
  "frequency_in (aggregate_recommendations example_reviews) ''general'' = 1
   \<and> ''browser_verification'' \<in> set (map ev_theme
       (generate_proposals_from_deep_reviews (\<lambda>_ _. None) ''docker''
          (aggregate_recommendations example_reviews)))
   \<and> ''general'' \<notin> set (map ev_theme
       (generate_proposals_from_deep_reviews (\<lambda>_ _. None) ''docker''
          (aggregate_recommendations example_reviews)))"
  using C7_buckets_and_proposals [of example_reviews "''general''" "\<lambda>_ _. None" "''docker''"]
    example_frequencies
  by simp

section \<open>Properties of the orchestrator\<close>

lemma fold_max_ge: "(a::nat) \<le> fold max xs a"
  by (induction xs arbitrary: a) (auto intro: le_trans [OF max.cobounded2])

lemma fold_max_mem: "x \<in> set xs \<Longrightarrow> (x::nat) \<le> fold max xs a"
proof (induction xs arbitrary: a)
  case Nil
  then show ?case by simp
next
  case (Cons y ys)
  show ?case
  proof (cases "x = y")
    case True
    have "y \<le> max y a" by simp
    also have "\<dots> \<le> fold max ys (max y a)" by (rule fold_max_ge)
    finally show ?thesis using True by simp
  next
    case False
    with Cons.prems have "x \<in> set ys" by simp
    then show ?thesis using Cons.IH by simp
  qed
qed

lemma fresh_id_gt: "r \<in> set rows \<Longrightarrow> row_id r < fresh_id rows"
proof -
  assume r: "r \<in> set rows"
  then obtain y ys where rows: "rows = y # ys" by (cases rows) auto
  from r have "row_id r \<in> set (map row_id rows)" by simp
  then have "row_id r \<le> fold max (map row_id rows) 0" by (rule fold_max_mem)
  then show ?thesis unfolding fresh_id_def rows by simp
qed

lemma next_number_gt:
  assumes "r \<in> set (db_sessions w)" "row_project_id r = pid"
  shows "row_session_number r < get_next_session_number w pid"
proof -
  let ?rs = "filter (\<lambda>r. row_project_id r = pid) (db_sessions w)"
  from assms have r: "r \<in> set ?rs" by simp
  then obtain y ys where rs: "?rs = y # ys" by (cases ?rs) auto
  from r have "row_session_number r \<in> set (map row_session_number ?rs)" by simp
  then have "row_session_number r \<le> fold max (map row_session_number ?rs) 0" by (rule fold_max_mem)
  then show ?thesis unfolding get_next_session_number_def rs [symmetric] using rs by simp
qed

lemma create_session_next:
  "create_session pid (get_next_session_number w pid) t m w =
     Inr (new_row (db_sessions w) pid (get_next_session_number w pid) t m,
          write_sessions (db_sessions w @ [new_row (db_sessions w) pid (get_next_session_number w pid) t m]) w)"
proof -
  have "\<not> list_ex (\<lambda>r. row_project_id r = pid \<and> row_session_number r = get_next_session_number w pid) (db_sessions w)"
  proof
    assume "list_ex (\<lambda>r. row_project_id r = pid \<and> row_session_number r = get_next_session_number w pid) (db_sessions w)"
    then obtain r where r: "r \<in> set (db_sessions w)" "row_project_id r = pid"
      "row_session_number r = get_next_session_number w pid"
      unfolding list_ex_iff by blast
    from next_number_gt [OF r(1) r(2)] r(3) show False by simp
  qed
  then show ?thesis by (simp add: create_session_def Let_def)
qed

lemma update_row_fresh: "\<forall>r\<in>set rows. row_id r \<noteq> sid \<Longrightarrow> update_row sid f rows = rows"
  by (induction rows) (auto simp: update_row_def)

lemma update_row_snoc:
  "\<forall>r\<in>set rows. row_id r \<noteq> row_id x \<Longrightarrow> update_row (row_id x) f (rows @ [x]) = rows @ [f x]"
  using update_row_fresh [of rows "row_id x" f] by (simp add: update_row_def)

lemma row_id_mark [simp]:
  "row_id (mark_running now x) = row_id x"
  "row_id (mark_ended st e r x) = row_id x"
  "row_project_id (mark_running now x) = row_project_id x"
  "row_project_id (mark_ended st e r x) = row_project_id x"
  "row_status (mark_running now x) = RUNNING"
  "row_status (mark_ended st e r x) = st"
  by (simp_all add: mark_running_def mark_ended_def)

lemma frame_notify [simp]:
  "db_sessions (notify_project_update pid ev w) = db_sessions w"
  "sessions_history (notify_project_update pid ev w) = sessions_history w"
  "calls (notify_project_update pid ev w) = calls w"
  "db_quality_checks (notify_project_update pid ev w) = db_quality_checks w"
  "stop_after_current (notify_project_update pid ev w) = stop_after_current w"
  "session_managers (notify_project_update pid ev w) = session_managers w"
  "db_progress (notify_project_update pid ev w) = db_progress w"
  "db_projects (notify_project_update pid ev w) = db_projects w"
  by (simp_all add: notify_project_update_def)

lemma frame_emit [simp]:
  "db_sessions (emit pid ev w) = db_sessions w"
  "sessions_history (emit pid ev w) = sessions_history w"
  "calls (emit pid ev w) = calls w"
  "db_quality_checks (emit pid ev w) = db_quality_checks w"
  "stop_after_current (emit pid ev w) = stop_after_current w"
  "session_managers (emit pid ev w) = session_managers w"
  "db_progress (emit pid ev w) = db_progress w"
  "db_projects (emit pid ev w) = db_projects w"
  by (simp_all add: emit_def)

lemma frame_set_current_logger [simp]:
  "db_sessions (set_current_logger sid b w) = db_sessions w"
  "sessions_history (set_current_logger sid b w) = sessions_history w"
  "calls (set_current_logger sid b w) = calls w"
  "db_quality_checks (set_current_logger sid b w) = db_quality_checks w"
  "stop_after_current (set_current_logger sid b w) = stop_after_current w"
  "db_progress (set_current_logger sid b w) = db_progress w"
  "db_projects (set_current_logger sid b w) = db_projects w"
  "published (set_current_logger sid b w) = published w"
  by (simp_all add: set_current_logger_def)

lemma frame_set_stop [simp]:
  "db_sessions (set_stop_after_current pid b w) = db_sessions w"
  "sessions_history (set_stop_after_current pid b w) = sessions_history w"
  "calls (set_stop_after_current pid b w) = calls w"
  "db_quality_checks (set_stop_after_current pid b w) = db_quality_checks w"
  "session_managers (set_stop_after_current pid b w) = session_managers w"
  "db_progress (set_stop_after_current pid b w) = db_progress w"
  "db_projects (set_stop_after_current pid b w) = db_projects w"
  "published (set_stop_after_current pid b w) = published w"
  by (simp_all add: set_stop_after_current_def)

lemma frame_maybe_trigger [simp]:
  "db_sessions (maybe_trigger_deep_review sid q w) = db_sessions w"
  "sessions_history (maybe_trigger_deep_review sid q w) = sessions_history w"
  "db_quality_checks (maybe_trigger_deep_review sid q w) = db_quality_checks w"
  "stop_after_current (maybe_trigger_deep_review sid q w) = stop_after_current w"
  "session_managers (maybe_trigger_deep_review sid q w) = session_managers w"
  "db_progress (maybe_trigger_deep_review sid q w) = db_progress w"
  "db_projects (maybe_trigger_deep_review sid q w) = db_projects w"
  "published (maybe_trigger_deep_review sid q w) = published w"
  by (simp_all add: maybe_trigger_deep_review_def split: option.splits)

lemma frame_quality [simp]:
  "db_sessions (run_quality_check env sid w) = db_sessions w"
  "sessions_history (run_quality_check env sid w) = sessions_history w"
  "stop_after_current (run_quality_check env sid w) = stop_after_current w"
  "session_managers (run_quality_check env sid w) = session_managers w"
  "db_progress (run_quality_check env sid w) = db_progress w"
  "db_projects (run_quality_check env sid w) = db_projects w"
  "published (run_quality_check env sid w) = published w"
  by (simp_all add: run_quality_check_def Let_def split: option.splits)

lemma frame_coverage [simp]:
  "db_sessions (run_test_coverage_analysis env pid w) = db_sessions w"
  "sessions_history (run_test_coverage_analysis env pid w) = sessions_history w"
  "db_quality_checks (run_test_coverage_analysis env pid w) = db_quality_checks w"
  "stop_after_current (run_test_coverage_analysis env pid w) = stop_after_current w"
  "session_managers (run_test_coverage_analysis env pid w) = session_managers w"
  "db_progress (run_test_coverage_analysis env pid w) = db_progress w"
  "db_projects (run_test_coverage_analysis env pid w) = db_projects w"
  "published (run_test_coverage_analysis env pid w) = published w"
  by (simp_all add: run_test_coverage_analysis_def Let_def)

lemma frame_finally [simp]:
  "db_sessions (finally_clause sid w) = db_sessions w"
  "sessions_history (finally_clause sid w) = sessions_history w"
  "calls (finally_clause sid w) = calls w"
  "db_quality_checks (finally_clause sid w) = db_quality_checks w"
  "stop_after_current (finally_clause sid w) = stop_after_current w"
  "db_progress (finally_clause sid w) = db_progress w"
  "db_projects (finally_clause sid w) = db_projects w"
  "published (finally_clause sid w) = published w"
  by (simp_all add: finally_clause_def)

lemma frame_write_sessions [simp]:
  "db_sessions (write_sessions rows w) = rows"
  "sessions_history (write_sessions rows w) = sessions_history w @ [rows]"
  "calls (write_sessions rows w) = calls w"
  "db_quality_checks (write_sessions rows w) = db_quality_checks w"
  "stop_after_current (write_sessions rows w) = stop_after_current w"
  "session_managers (write_sessions rows w) = session_managers w"
  "db_progress (write_sessions rows w) = db_progress w"
  "db_projects (write_sessions rows w) = db_projects w"
  "published (write_sessions rows w) = published w"
  by (simp_all add: write_sessions_def)

lemma frame_end_session [simp]:
  "db_sessions (end_session sid st e r w) = update_row sid (mark_ended st e r) (db_sessions w)"
  "sessions_history (end_session sid st e r w) =
     sessions_history w @ [update_row sid (mark_ended st e r) (db_sessions w)]"
  "calls (end_session sid st e r w) = calls w"
  "db_quality_checks (end_session sid st e r w) = db_quality_checks w"
  "stop_after_current (end_session sid st e r w) = stop_after_current w"
  "session_managers (end_session sid st e r w) = session_managers w"
  "db_progress (end_session sid st e r w) = db_progress w"
  "db_projects (end_session sid st e r w) = db_projects w"
  "published (end_session sid st e r w) = published w"
  by (simp_all add: end_session_def)

lemma frame_db_start [simp]:
  "db_sessions (db_start_session sid now w) = update_row sid (mark_running now) (db_sessions w)"
  "sessions_history (db_start_session sid now w) =
     sessions_history w @ [update_row sid (mark_running now) (db_sessions w)]"
  "calls (db_start_session sid now w) = calls w"
  "db_quality_checks (db_start_session sid now w) = db_quality_checks w"
  "stop_after_current (db_start_session sid now w) = stop_after_current w"
  "session_managers (db_start_session sid now w) = session_managers w"
  "db_progress (db_start_session sid now w) = db_progress w"
  "db_projects (db_start_session sid now w) = db_projects w"
  "published (db_start_session sid now w) = published w"
  by (simp_all add: db_start_session_def)

lemma after_agent_sessions:
  "db_sessions (snd (after_agent env init info status response w)) =
     update_row (si_session_id info)
       (if status = ''error'' then mark_ended ERROR (Some response) None
        else mark_ended COMPLETED None None) (db_sessions w)"
  "sessions_history (snd (after_agent env init info status response w)) =
     sessions_history w @
     [update_row (si_session_id info)
       (if status = ''error'' then mark_ended ERROR (Some response) None
        else mark_ended COMPLETED None None) (db_sessions w)]"
  "fst (after_agent env init info status response w) =
     (if status = ''error'' then info\<lparr>si_status := ERROR, si_error_message := Some response\<rparr>
      else info\<lparr>si_status := COMPLETED\<rparr>)"
  by (simp_all add: after_agent_def Let_def)

lemma update_row_last:
  assumes "\<forall>r\<in>set rows. row_id r \<noteq> sid" and "row_id y = sid"
  shows "update_row sid f (rows @ [y]) = rows @ [f y]"
  using update_row_fresh [OF assms(1), of f] assms(2) by (simp add: update_row_def)

lemma new_row_simps [simp]:
  "row_id (new_row rows pid n t m) = fresh_id rows"
  "row_project_id (new_row rows pid n t m) = pid"
  "row_session_number (new_row rows pid n t m) = n"
  "row_session_type (new_row rows pid n t m) = t"
  "row_model (new_row rows pid n t m) = m"
  "row_status (new_row rows pid n t m) = PENDING"
  by (simp_all add: new_row_def)

lemma allocated_row_simps [simp]:
  "row_id (allocated_row w pid im cm) = fresh_id (db_sessions w)"
  "row_project_id (allocated_row w pid im cm) = pid"
  "row_status (allocated_row w pid im cm) = PENDING"
  by (simp_all add: allocated_row_def)

lemma allocated_row_fresh: "\<forall>r\<in>set (db_sessions w). row_id r \<noteq> row_id (allocated_row w pid im cm)"
proof
  fix r assume "r \<in> set (db_sessions w)"
  then have "row_id r < fresh_id (db_sessions w)" by (rule fresh_id_gt)
  then show "row_id r \<noteq> row_id (allocated_row w pid im cm)" by simp
qed

lemma registered_sessions [simp]:
  "db_sessions (registered x w) = db_sessions w @ [x]"
  "sessions_history (registered x w) = sessions_history w @ [db_sessions w @ [x]]"
  "calls (registered x w) = calls w"
  "db_quality_checks (registered x w) = db_quality_checks w"
  "stop_after_current (registered x w) = stop_after_current w"
  "db_progress (registered x w) = db_progress w"
  "published (registered x w) = published w"
  by (simp_all add: registered_def)

lemma pending_info_simps [simp]:
  "si_session_id (pending_info x) = row_id x"
  "si_project_id (pending_info x) = row_project_id x"
  "si_status (pending_info x) = PENDING"
  "si_error_message (pending_info x) = None"
  by (simp_all add: pending_info_def)

lemma admit_admitted:
  assumes "admitted w pid im cm"
  shows "admit pid im cm w =
     (Inr (is_first_session w pid, pending_info (allocated_row w pid im cm)),
      registered (allocated_row w pid im cm) w)"
proof -
  from assms obtain name where p: "db_projects w pid = Some name"
    and g: "get_active_session w pid = None"
    and m: "if total_epics (db_progress w pid) = 0 then given im else given cm"
    unfolding admitted_def by blast
  show ?thesis
  proof (cases "total_epics (db_progress w pid) = 0")
    case True
    with m have "given im" by simp
    with True p g show ?thesis
      unfolding admit_def
      by (simp add: create_session_next Let_def case_prod_beta is_first_session_def
          allocated_row_def pending_info_def registered_def)
  next
    case False
    with m have "given cm" by simp
    with False p g show ?thesis
      unfolding admit_def
      by (simp add: create_session_next Let_def case_prod_beta is_first_session_def
          allocated_row_def pending_info_def registered_def)
  qed
qed

lemma admit_rejected:
  assumes "\<not> admitted w pid im cm"
  shows "\<exists>e. admit pid im cm w = (Inl e, w)"
  using assms unfolding admitted_def admit_def
  by (auto simp: Let_def split: option.splits)

lemma start_session_rejected:
  assumes "\<not> admitted w pid im cm"
  shows "\<exists>e. start_session env pid im cm w = (Inl e, w)"
proof -
  from admit_rejected [OF assms] obtain e where "admit pid im cm w = (Inl e, w)" by blast
  then show ?thesis by (simp add: start_session_def)
qed

lemma start_session_unfold:
  assumes "admitted w pid im cm"
  shows "start_session env pid im cm w =
     (if sandbox_created env
      then (fst (try_except env (is_first_session w pid)
                   (pending_info (allocated_row w pid im cm))
                   (registered (allocated_row w pid im cm) w)),
            finally_clause (row_id (allocated_row w pid im cm))
              (snd (try_except env (is_first_session w pid)
                      (pending_info (allocated_row w pid im cm))
                      (registered (allocated_row w pid im cm) w))))
      else (Inl (Uncaught (the (raises env))), registered (allocated_row w pid im cm) w))"
  unfolding start_session_def admit_admitted [OF assms]
  by (simp add: sandbox_created_def raises_def case_prod_beta
      split: option.splits sandbox_failure.splits)

lemma begin_session_started:
  assumes "\<And>e. env_sandbox_start env \<noteq> Some (StartSandbox e)"
  shows "begin_session env info w =
     (Inr (info\<lparr>si_status := RUNNING\<rparr>),
      emit (si_project_id info) ''session_started''
        (db_start_session (si_session_id info) (env_now env)
           (set_current_logger (si_session_id info) True w)))"
  using assms
  by (simp add: begin_session_def Let_def split: option.splits sandbox_failure.splits)

lemma begin_session_failed:
  assumes "env_sandbox_start env = Some (StartSandbox e)"
  shows "begin_session env info w = (Inl e, w)"
  using assms by (simp add: begin_session_def)

lemma ended_by_id [simp]:
  "row_id (ended_by e x) = row_id x"
  "row_project_id (ended_by e x) = row_project_id x"
  by (simp_all add: ended_by_def split: raised.splits)

lemma handle_raised_char:
  assumes w: "db_sessions w = rows @ [y]"
    and fresh: "\<forall>r\<in>set rows. row_id r \<noteq> row_id y"
    and sid: "si_session_id info = row_id y"
  shows "db_sessions (snd (handle_raised env e info w)) = rows @ [last (y # handler_writes env e y)]"
    and "sessions_history (snd (handle_raised env e info w)) =
           sessions_history w @ map (\<lambda>z. rows @ [z]) (handler_writes env e y)"
proof -
  have upd: "\<And>f. update_row (row_id y) f (rows @ [y]) = rows @ [f y]"
    using update_row_last [OF fresh] by blast
  show "db_sessions (snd (handle_raised env e info w)) = rows @ [last (y # handler_writes env e y)]"
    using w sid
    by (simp add: handle_raised_def handler_writes_def caught_def ended_by_def Let_def upd
        split: option.splits raised.splits)
  show "sessions_history (snd (handle_raised env e info w)) =
           sessions_history w @ map (\<lambda>z. rows @ [z]) (handler_writes env e y)"
    using w sid
    by (simp add: handle_raised_def handler_writes_def caught_def ended_by_def Let_def upd
        split: option.splits raised.splits)
qed

lemma try_except_char:
  assumes w: "db_sessions w = rows @ [x]"
    and fresh: "\<forall>r\<in>set rows. row_id r \<noteq> row_id x"
    and sid: "si_session_id info = row_id x"
    and created: "sandbox_created env"
  shows "db_sessions (snd (try_except env init info w)) = rows @ [final_row env x]"
    and "sessions_history (snd (try_except env init info w)) =
           sessions_history w @ snapshots env rows x"
proof -
  have upd: "\<And>f y. row_id y = row_id x \<Longrightarrow> update_row (row_id x) f (rows @ [y]) = rows @ [f y]"
    using update_row_last [OF fresh] by blast
  have both: "db_sessions (snd (try_except env init info w)) = rows @ [final_row env x]
     \<and> sessions_history (snd (try_except env init info w)) =
           sessions_history w @ snapshots env rows x"
  proof (cases "env_sandbox_start env")
    case (Some f)
    with created obtain e where f: "env_sandbox_start env = Some (StartSandbox e)"
      by (cases f) (simp_all add: sandbox_created_def)
    have te: "try_except env init info w = handle_raised env e info w"
      by (simp add: try_except_def guarded_block_def begin_session_failed [OF f])
    show ?thesis
      unfolding te
      by (simp add: handle_raised_char [OF w fresh sid] final_row_def snapshots_def
          row_writes_def f)
  next
    case None
    define y where "y = mark_running (env_now env) x"
    define w3 where "w3 = emit (si_project_id info) ''session_started''
        (db_start_session (si_session_id info) (env_now env)
           (set_current_logger (si_session_id info) True w))"
    have bs: "begin_session env info w = (Inr (info\<lparr>si_status := RUNNING\<rparr>), w3)"
      unfolding w3_def by (rule begin_session_started) (simp add: None)
    have w3s: "db_sessions w3 = rows @ [y]"
      and w3h: "sessions_history w3 = sessions_history w @ [rows @ [y]]"
      unfolding w3_def y_def using w sid by (simp_all add: upd)
    have idy: "row_id y = row_id x" by (simp add: y_def)
    from fresh idy have freshy: "\<forall>r\<in>set rows. row_id r \<noteq> row_id y" by simp
    from sid idy have sidy: "si_session_id info = row_id y" by simp
    have updy: "\<And>f. update_row (row_id x) f (rows @ [y]) = rows @ [f y]"
      using upd [OF idy] .
    show ?thesis
    proof (cases "first_raised env")
      case (Some e)
      have fr: "(\<exists>w5. continue_session env init (info\<lparr>si_status := RUNNING\<rparr>) w3 = (Inl e, w5)
          \<and> db_sessions w5 = rows @ [y] \<and> sessions_history w5 = sessions_history w @ [rows @ [y]])"
        using Some None w3s w3h
        by (auto simp: continue_session_def first_raised_def Let_def
            split: option.splits sum.splits)
      then obtain w5 where cs: "continue_session env init (info\<lparr>si_status := RUNNING\<rparr>) w3 = (Inl e, w5)"
        and w5s: "db_sessions w5 = rows @ [y]"
        and w5h: "sessions_history w5 = sessions_history w @ [rows @ [y]]" by blast
      have te: "try_except env init info w = handle_raised env e info w5"
        by (simp add: try_except_def guarded_block_def bs cs)
      show ?thesis
        unfolding te
        by (simp add: handle_raised_char [OF w5s freshy sidy] w5h final_row_def snapshots_def
            row_writes_def None Some y_def)
    next
      case None2: None
      then obtain status response where ag: "env_agent env = Inr (status, response)"
        and cl: "env_client env = None"
        using None by (auto simp: first_raised_def split: option.splits sum.splits)
      show ?thesis
        using w3s w3h sid
        by (simp add: try_except_def guarded_block_def bs continue_session_def Let_def cl ag
            case_prod_beta after_agent_sessions updy [unfolded y_def] final_row_def
            snapshots_def row_writes_def None None2 y_def)
    qed
  qed
  from both show "db_sessions (snd (try_except env init info w)) = rows @ [final_row env x]"
    by blast
  from both show "sessions_history (snd (try_except env init info w)) =
           sessions_history w @ snapshots env rows x"
    by blast
qed

lemma handle_raised_fst:
  "fst (handle_raised env e info w) =
     (case (if caught e then env_handler_end_session env else Some e) of
        Some e' \<Rightarrow> Inl (Uncaught e')
      | None \<Rightarrow>
         Inr (case e of
                KeyboardInterrupt \<Rightarrow> info\<lparr>si_status := INTERRUPTED\<rparr>
              | Exception msg \<Rightarrow> info\<lparr>si_status := ERROR, si_error_message := Some msg\<rparr>
              | CancelledError \<Rightarrow> info
              | SystemExit \<Rightarrow> info))"
  by (cases e; cases "env_handler_end_session env") (simp_all add: handle_raised_def caught_def Let_def)

lemma try_except_fst:
  "fst (try_except env init info w) =
     (case (case first_raised env of
              None \<Rightarrow> None
            | Some e \<Rightarrow> if caught e then env_handler_end_session env else Some e) of
        Some e \<Rightarrow> Inl (Uncaught e)
      | None \<Rightarrow> Inr (final_info env info))"
proof (cases "\<exists>e. env_sandbox_start env = Some (StartSandbox e)")
  case True
  then obtain e where f: "env_sandbox_start env = Some (StartSandbox e)" by blast
  have fr: "first_raised env = Some e" by (simp add: first_raised_def f)
  have te: "try_except env init info w = handle_raised env e info w"
    by (simp add: try_except_def guarded_block_def begin_session_failed [OF f])
  show ?thesis
    unfolding te handle_raised_fst fr
    by (cases e) (simp_all add: final_info_def fr split: option.splits)
next
  case False
  then have ns: "\<And>e. env_sandbox_start env \<noteq> Some (StartSandbox e)" by blast
  define w3 where "w3 = emit (si_project_id info) ''session_started''
        (db_start_session (si_session_id info) (env_now env)
           (set_current_logger (si_session_id info) True w))"
  have bs: "begin_session env info w = (Inr (info\<lparr>si_status := RUNNING\<rparr>), w3)"
    unfolding w3_def by (rule begin_session_started) (rule ns)
  have fr0: "first_raised env =
      (case env_client env of
         Some e \<Rightarrow> Some e
       | None \<Rightarrow> (case env_agent env of Inl e \<Rightarrow> Some e | Inr r \<Rightarrow> None))"
    using ns by (simp add: first_raised_def split: option.splits sandbox_failure.splits)
  show ?thesis
  proof (cases "first_raised env")
    case (Some e)
    have "\<exists>w5. continue_session env init (info\<lparr>si_status := RUNNING\<rparr>) w3 = (Inl e, w5)"
      using Some unfolding fr0
      by (auto simp: continue_session_def Let_def split: option.splits sum.splits)
    then obtain w5 where
      cs: "continue_session env init (info\<lparr>si_status := RUNNING\<rparr>) w3 = (Inl e, w5)" by blast
    have te: "try_except env init info w = handle_raised env e info w5"
      by (simp add: try_except_def guarded_block_def bs cs)
    show ?thesis
      unfolding te handle_raised_fst Some
      by (cases e) (simp_all add: final_info_def Some split: option.splits)
  next
    case None
    then obtain status response where ag: "env_agent env = Inr (status, response)"
      and cl: "env_client env = None"
      unfolding fr0 by (auto split: option.splits sum.splits)
    show ?thesis
      unfolding None
      by (simp add: try_except_def guarded_block_def bs continue_session_def Let_def cl ag
          case_prod_beta after_agent_sessions final_info_def None)
  qed
qed

lemma start_session_admitted:
  assumes a: "admitted w pid im cm"
  shows "fst (start_session env pid im cm w) =
           (case raises env of
              Some e \<Rightarrow> Inl (Uncaught e)
            | None \<Rightarrow> Inr (final_info env (pending_info (allocated_row w pid im cm))))"
    and "db_sessions (snd (start_session env pid im cm w)) =
           db_sessions w @ [final_row env (allocated_row w pid im cm)]"
    and "sessions_history (snd (start_session env pid im cm w)) =
           sessions_history w @ [db_sessions w @ [allocated_row w pid im cm]]
             @ snapshots env (db_sessions w) (allocated_row w pid im cm)"
proof -
  let ?x = "allocated_row w pid im cm"
  have w2: "db_sessions (registered ?x w) = db_sessions w @ [?x]" by simp
  have sid: "si_session_id (pending_info ?x) = row_id ?x" by simp
  note ch = try_except_char [OF w2 allocated_row_fresh sid]
  show "fst (start_session env pid im cm w) =
           (case raises env of
              Some e \<Rightarrow> Inl (Uncaught e)
            | None \<Rightarrow> Inr (final_info env (pending_info ?x)))"
    unfolding start_session_unfold [OF a]
    by (simp add: try_except_fst raises_def sandbox_created_def
        split: option.splits sandbox_failure.splits)
  show "db_sessions (snd (start_session env pid im cm w)) = db_sessions w @ [final_row env ?x]"
  proof (cases "sandbox_created env")
    case True
    then show ?thesis unfolding start_session_unfold [OF a] by (simp add: ch)
  next
    case False
    then show ?thesis unfolding start_session_unfold [OF a]
      by (simp add: sandbox_created_def final_row_def row_writes_def
          split: option.splits sandbox_failure.splits)
  qed
  show "sessions_history (snd (start_session env pid im cm w)) =
           sessions_history w @ [db_sessions w @ [?x]] @ snapshots env (db_sessions w) ?x"
  proof (cases "sandbox_created env")
    case True
    then show ?thesis unfolding start_session_unfold [OF a] by (simp add: ch)
  next
    case False
    then show ?thesis unfolding start_session_unfold [OF a]
      by (simp add: sandbox_created_def snapshots_def row_writes_def
          split: option.splits sandbox_failure.splits)
  qed
qed

lemma gate_none: "get_active_session w pid = None \<Longrightarrow> running_of (db_sessions w) pid = []"
  by (simp add: get_active_session_def running_of_def find_None_iff filter_empty_conv)

lemma gate_some:
  assumes "get_active_session w pid = Some a"
  shows "row_project_id a = pid \<and> row_status a = RUNNING \<and> a \<in> set (db_sessions w)"
proof -
  from assms obtain i where "i < length (db_sessions w)"
    "row_project_id (db_sessions w ! i) = pid \<and> row_status (db_sessions w ! i) = RUNNING"
    "a = db_sessions w ! i"
    unfolding get_active_session_def find_Some_iff by blast
  then show ?thesis by simp
qed

lemma running_of_snoc:
  "running_of (rows @ [y]) p =
     running_of rows p @ (if row_project_id y = p \<and> row_status y = RUNNING then [y] else [])"
  by (simp add: running_of_def)

lemma amor_snoc:
  assumes "at_most_one_running rows"
    and "row_status y = RUNNING \<Longrightarrow> running_of rows (row_project_id y) = []"
  shows "at_most_one_running (rows @ [y])"
proof -
  have old: "\<And>r. r \<in> set rows \<Longrightarrow> length (running_of rows (row_project_id r)) \<le> 1"
    using assms(1) by (simp add: at_most_one_running_def list_all_iff)
  have "\<And>r. r \<in> set (rows @ [y]) \<Longrightarrow> length (running_of (rows @ [y]) (row_project_id r)) \<le> 1"
  proof -
    fix r assume r: "r \<in> set (rows @ [y])"
    show "length (running_of (rows @ [y]) (row_project_id r)) \<le> 1"
    proof (cases "row_project_id y = row_project_id r \<and> row_status y = RUNNING")
      case True
      with assms(2) have "running_of rows (row_project_id r) = []" by simp
      then show ?thesis by (simp add: running_of_snoc)
    next
      case False
      then have eq: "running_of (rows @ [y]) (row_project_id r) = running_of rows (row_project_id r)"
        by (auto simp: running_of_snoc)
      show ?thesis
      proof (cases "r \<in> set rows")
        case True
        then show ?thesis using old eq by simp
      next
        case False
        with r have ry: "r = y" by simp
        show ?thesis
        proof (cases "running_of rows (row_project_id r)")
          case Nil
          then show ?thesis using eq by simp
        next
          case (Cons z zs)
          then have "z \<in> set (running_of rows (row_project_id r))" by simp
          then have z: "z \<in> set rows" "row_project_id z = row_project_id r"
            by (simp_all add: running_of_def)
          from old [OF z(1)] z(2) show ?thesis using eq by simp
        qed
      qed
    qed
  qed
  then show ?thesis by (simp only: at_most_one_running_def list_all_iff) blast
qed

lemma handler_writes_ids:
  assumes "y \<in> set (handler_writes env e z)"
  shows "row_id y = row_id z \<and> row_project_id y = row_project_id z"
proof -
  from assms have "y = ended_by e z"
    by (cases "caught e \<and> env_handler_end_session env = None")
       (simp_all add: handler_writes_def)
  then show ?thesis by simp
qed

lemma row_writes_ids:
  assumes "y \<in> set (row_writes env x)"
  shows "row_id y = row_id x \<and> row_project_id y = row_project_id x"
proof (cases "env_sandbox_start env")
  case None
  let ?z = "mark_running (env_now env) x"
  show ?thesis
  proof (cases "first_raised env")
    case (Some e)
    from assms have "y = ?z \<or> y \<in> set (handler_writes env e ?z)"
      by (simp add: row_writes_def None Some)
    then show ?thesis using handler_writes_ids [of y env e ?z] by auto
  next
    case None2: None
    show ?thesis
    proof (cases "env_agent env")
      case (Inl e)
      from assms have "y = ?z" by (simp add: row_writes_def None None2 Inl)
      then show ?thesis by simp
    next
      case (Inr r)
      obtain status response where r: "r = (status, response)" by (cases r)
      from assms have "y = ?z \<or> y = mark_ended ERROR (Some response) None ?z
          \<or> y = mark_ended COMPLETED None None ?z"
        by (cases "status = ''error''") (auto simp: row_writes_def None None2 Inr r)
      then show ?thesis by auto
    qed
  qed
next
  case (Some f)
  show ?thesis
  proof (cases f)
    case (CreateSandbox e)
    with assms Some show ?thesis by (simp add: row_writes_def)
  next
    case (StartSandbox e)
    with assms Some have "y \<in> set (handler_writes env e x)" by (simp add: row_writes_def)
    then show ?thesis by (rule handler_writes_ids)
  qed
qed

lemma final_row_mem: "final_row env x \<in> set (x # row_writes env x)"
  unfolding final_row_def by (rule last_in_set) simp

lemma final_row_project [simp]: "row_project_id (final_row env x) = row_project_id x"
  using final_row_mem [of env x] row_writes_ids [of "final_row env x" env x] by auto

lemma final_row_id [simp]: "row_id (final_row env x) = row_id x"
  using final_row_mem [of env x] row_writes_ids [of "final_row env x" env x] by auto

lemma sublist_number: "sublist (string_of_nat (row_session_number a)) (busy_message a)"
  unfolding busy_message_def by (rule sublist_appendI)

lemma sublist_started: "sublist (started_text a) (busy_message a)"
proof -
  have "busy_message a =
      (''Cannot start new session: Session '' @ string_of_nat (row_session_number a)
        @ '' is already running (started '')
      @ started_text a @ ''). Wait for it to complete or stop it first.''"
    unfolding busy_message_def started_text_def by (simp only: append_assoc)
  then show ?thesis by (simp only: sublist_appendI)
qed

lemma find_none_fresh: "\<forall>r\<in>set rows. \<not> P r \<Longrightarrow> find P rows = None"
  by (induction rows) auto


lemma find_update_row:
  assumes "\<And>r. row_id (f r) = row_id r"
  shows "find (\<lambda>r. row_id r = sid) (update_row sid f rows) =
         map_option f (find (\<lambda>r. row_id r = sid) rows)"
  using assms by (induction rows) (auto simp: update_row_def)


text \<open>
  One call of \<open>start_session\<close>, run from its admission check to its end before another call
  makes its check, keeps the invariant: every content of the \<open>sessions\<close> table that the call
  writes, and the content it leaves, has at most one running session per project if the
  table had so before.
\<close>

lemma invariant_kept:
  assumes inv: "at_most_one_running (db_sessions w)"
  shows "list_all at_most_one_running
           (drop (length (sessions_history w))
              (sessions_history (snd (start_session env pid im cm w))))
       \<and> at_most_one_running (db_sessions (snd (start_session env pid im cm w)))"
proof (cases "admitted w pid im cm")
  case False
  then obtain e where "start_session env pid im cm w = (Inl e, w)"
    using start_session_rejected by blast
  with inv show ?thesis by simp
next
  case True
  let ?x = "allocated_row w pid im cm"
  let ?rows = "db_sessions w"
  from True have g: "running_of ?rows pid = []" by (simp add: admitted_def gate_none)
  have each: "\<And>y. y \<in> set (?x # row_writes env ?x) \<Longrightarrow> at_most_one_running (?rows @ [y])"
  proof -
    fix y assume "y \<in> set (?x # row_writes env ?x)"
    then have "row_project_id y = pid" using row_writes_ids [of y env ?x] by auto
    then show "at_most_one_running (?rows @ [y])"
      by (intro amor_snoc [OF inv]) (simp add: g)
  qed
  have s1: "at_most_one_running (?rows @ [?x])" by (rule each) simp
  have s2: "list_all at_most_one_running (snapshots env ?rows ?x)"
    unfolding snapshots_def list_all_iff using each by auto
  have s3: "at_most_one_running (?rows @ [final_row env ?x])"
    by (rule each) (rule final_row_mem)
  from s1 s2 s3 show ?thesis
    by (simp add: start_session_admitted [OF True])
qed

text \<open>
  When the store reports a running session for the project, \<open>start_session\<close> raises the
  conflict error, whose message contains the active session's number and its started-at
  time, and leaves the state as it was: no row is allocated.
\<close>

lemma admission_check_rejects:
  assumes "db_projects w pid \<noteq> None" and "get_active_session w pid = Some a"
  shows "start_session env pid im cm w = (Inl (ValueError (busy_message a)), w)"
    and "row_project_id a = pid" and "row_status a = RUNNING"
    and "sublist (string_of_nat (row_session_number a)) (busy_message a)"
    and "sublist (started_text a) (busy_message a)"
proof -
  from assms show "start_session env pid im cm w = (Inl (ValueError (busy_message a)), w)"
    by (auto simp: start_session_def admit_def)
  from assms(2) gate_some show "row_project_id a = pid" by blast
  from assms(2) gate_some show "row_status a = RUNNING" by blast
  show "sublist (string_of_nat (row_session_number a)) (busy_message a)" by (rule sublist_number)
  show "sublist (started_text a) (busy_message a)" by (rule sublist_started)
qed

lemma busy_message_example:
  "busy_message running_row =
     ''Cannot start new session: Session 1 is already running (started 2025-01-01 10:00:00). Wait for it to complete or stop it first.''"
  by code_simp

lemma admission_check_example:
  "start_session example_env 1 None (Some ''sonnet'') busy_world =
     (Inl (ValueError ''Cannot start new session: Session 1 is already running (started 2025-01-01 10:00:00). Wait for it to complete or stop it first.''),
      busy_world)"
proof -
  have h1: "db_projects busy_world 1 \<noteq> None"
    by (simp add: busy_world_def example_world_def)
  have h2: "get_active_session busy_world 1 = Some running_row"
    by (simp add: busy_world_def example_world_def running_row_def get_active_session_def)
  from admission_check_rejects(1) [OF h1 h2] show ?thesis by (simp add: busy_message_example)
qed

text \<open>
  The admission check does not see a row that is still pending: a call that is admitted
  leaves, until its sandbox has started, a state in which a second call for the same project
  is admitted too.
\<close>

lemma pending_row_not_seen:
  assumes "admitted w pid im cm"
  shows "admitted (snd (admit pid im cm w)) pid im cm"
proof -
  let ?x = "allocated_row w pid im cm"
  from assms have g: "get_active_session w pid = None" by (simp add: admitted_def)
  then have "\<forall>r\<in>set (db_sessions w). \<not> (row_project_id r = pid \<and> row_status r = RUNNING)"
    by (simp add: get_active_session_def find_None_iff)
  then have "\<forall>r\<in>set (db_sessions w @ [?x]). \<not> (row_project_id r = pid \<and> row_status r = RUNNING)"
    by simp
  then have "get_active_session (registered ?x w) pid = None"
    unfolding get_active_session_def by (simp add: find_none_fresh)
  moreover have "db_projects (registered ?x w) = db_projects w"
    "db_progress (registered ?x w) = db_progress w"
    by (simp_all add: registered_def)
  ultimately show ?thesis
    using assms unfolding admit_admitted [OF assms] by (simp add: admitted_def)
qed

text \<open>
  In general: whenever a call is admitted and a second call for the same project makes its
  admission check before the sandbox of the first has started, both calls mark their rows
  running, and the project has two running sessions.
\<close>

lemma overlapping_calls_two_running:
  assumes a: "admitted w pid im cm"
    and sa: "\<And>e. env_sandbox_start env_a \<noteq> Some (StartSandbox e)"
    and sb: "\<And>e. env_sandbox_start env_b \<noteq> Some (StartSandbox e)"
  shows "\<exists>w'. overlapping_calls env_a env_b pid im cm w = Some w'
           \<and> length (running_of (db_sessions w') pid) = 2"
proof -
  define xa where "xa = allocated_row w pid im cm"
  define w1 where "w1 = registered xa w"
  define xb where "xb = allocated_row w1 pid im cm"
  define w2 where "w2 = registered xb w1"
  define ya where "ya = mark_running (env_now env_a) xa"
  define yb where "yb = mark_running (env_now env_b) xb"
  let ?rows = "db_sessions w"
  have ad1: "admit pid im cm w = (Inr (is_first_session w pid, pending_info xa), w1)"
    unfolding xa_def w1_def by (rule admit_admitted [OF a])
  have a1: "admitted w1 pid im cm"
    using pending_row_not_seen [OF a] by (simp add: ad1)
  have ad2: "admit pid im cm w1 = (Inr (is_first_session w1 pid, pending_info xb), w2)"
    unfolding xb_def w2_def by (rule admit_admitted [OF a1])
  have s1: "db_sessions w1 = ?rows @ [xa]" by (simp add: w1_def)
  have s2: "db_sessions w2 = ?rows @ [xa, xb]" by (simp add: w2_def s1)
  have ida: "row_id xa = fresh_id ?rows" by (simp add: xa_def)
  have fra: "\<forall>r\<in>set ?rows. row_id r \<noteq> row_id xa"
    unfolding xa_def by (rule allocated_row_fresh)
  have frb: "\<forall>r\<in>set (?rows @ [xa]). row_id r \<noteq> row_id xb"
    unfolding xb_def using allocated_row_fresh [of w1 pid im cm] by (simp only: s1)
  then have frb1: "\<forall>r\<in>set ?rows. row_id r \<noteq> row_id xb" and ab: "row_id xa \<noteq> row_id xb"
    by simp_all
  have pa: "row_project_id xa = pid" and pb: "row_project_id xb = pid"
    by (simp_all add: xa_def xb_def)
  have u1: "update_row (row_id xa) (mark_running (env_now env_a)) (?rows @ [xa, xb])
      = ?rows @ [ya, xb]"
    using update_row_fresh [OF fra, of "mark_running (env_now env_a)"] ab
    by (simp add: update_row_def ya_def)
  have u2: "update_row (row_id xb) (mark_running (env_now env_b)) (?rows @ [ya, xb])
      = ?rows @ [ya, yb]"
    using update_row_fresh [OF frb1, of "mark_running (env_now env_b)"] ab
    by (simp add: update_row_def ya_def yb_def)
  define w3 where "w3 = emit pid ''session_started''
        (db_start_session (row_id xa) (env_now env_a) (set_current_logger (row_id xa) True w2))"
  define w4 where "w4 = emit pid ''session_started''
        (db_start_session (row_id xb) (env_now env_b) (set_current_logger (row_id xb) True w3))"
  have b1: "begin_session env_a (pending_info xa) w2 =
      (Inr ((pending_info xa)\<lparr>si_status := RUNNING\<rparr>), w3)"
    unfolding w3_def using begin_session_started [OF sa, of "pending_info xa" w2]
    by (simp add: pa)
  have b2: "begin_session env_b (pending_info xb) w3 =
      (Inr ((pending_info xb)\<lparr>si_status := RUNNING\<rparr>), w4)"
    unfolding w4_def using begin_session_started [OF sb, of "pending_info xb" w3]
    by (simp add: pb)
  have s3: "db_sessions w3 = ?rows @ [ya, xb]" by (simp add: w3_def s2 u1)
  have s4: "db_sessions w4 = ?rows @ [ya, yb]" by (simp add: w4_def s3 u2)
  have oc: "overlapping_calls env_a env_b pid im cm w = Some w4"
    by (simp add: overlapping_calls_def ad1 ad2 b1 b2)
  from a have g: "running_of ?rows pid = []" by (simp add: admitted_def gate_none)
  have "running_of (?rows @ [ya, yb]) pid = [ya, yb]"
    using g by (simp add: running_of_def ya_def yb_def pa pb)
  then have "length (running_of (db_sessions w4) pid) = 2" by (simp add: s4)
  with oc show ?thesis by blast
qed

lemma overlapping_calls_run:
  "map_option (\<lambda>w. map (\<lambda>r. (row_project_id r, row_session_number r, row_status r))
                     (db_sessions w))
     (overlapping_calls example_env example_env 1 None (Some ''sonnet'') example_world)
   = Some [(1, 0, COMPLETED), (1, 1, RUNNING), (1, 2, RUNNING)]"
  by code_simp

text \<open>
  C1: the admission check of \<open>start_session\<close> rejects a call only when a row of the project
  is in status \<open>running\<close>, and the row of a call stays \<open>pending\<close> from its allocation until the
  sandbox of the call has started. In the run below two calls for project 1 overlap: the
  table has no running session at the start, the second call makes its admission check
  while the first awaits its sandbox and is admitted, and both rows are then marked
  running: project 1 has two sessions in status \<open>running\<close> at the same instant.
\<close>

theorem C1_overlapping_calls_both_running:
  "at_most_one_running (db_sessions example_world)
   \<and> admitted example_world 1 None (Some ''sonnet'')
   \<and> admitted (snd (admit 1 None (Some ''sonnet'') example_world)) 1 None (Some ''sonnet'')
   \<and> (\<exists>w. overlapping_calls example_env example_env 1 None (Some ''sonnet'') example_world
             = Some w
          \<and> map (\<lambda>r. (row_project_id r, row_session_number r, row_status r)) (db_sessions w)
             = [(1, 0, COMPLETED), (1, 1, RUNNING), (1, 2, RUNNING)]
          \<and> length (running_of (db_sessions w) 1) = 2
          \<and> \<not> at_most_one_running (db_sessions w))"
proof -
  have inv: "at_most_one_running (db_sessions example_world)"
    by (simp add: example_world_def at_most_one_running_def running_of_def)
  have a: "admitted example_world 1 None (Some ''sonnet'')"
    by (simp add: admitted_def example_world_def get_active_session_def given_def)
  have b: "admitted (snd (admit 1 None (Some ''sonnet'') example_world)) 1 None (Some ''sonnet'')"
    by (rule pending_row_not_seen [OF a])
  from overlapping_calls_run obtain w where
    w: "overlapping_calls example_env example_env 1 None (Some ''sonnet'') example_world = Some w"
    and m: "map (\<lambda>r. (row_project_id r, row_session_number r, row_status r)) (db_sessions w)
             = [(1, 0, COMPLETED), (1, 1, RUNNING), (1, 2, RUNNING)]"
    by auto
  from m obtain r0 r1 r2 where rows: "db_sessions w = [r0, r1, r2]"
    and p: "row_project_id r0 = 1" "row_project_id r1 = 1" "row_project_id r2 = 1"
    and s: "row_status r0 = COMPLETED" "row_status r1 = RUNNING" "row_status r2 = RUNNING"
    by (auto simp: map_eq_Cons_conv)
  have two: "length (running_of (db_sessions w) 1) = 2"
    by (simp add: rows p s running_of_def)
  have nw: "\<not> at_most_one_running (db_sessions w)"
    by (simp add: rows p s at_most_one_running_def running_of_def)
  have "\<exists>w. overlapping_calls example_env example_env 1 None (Some ''sonnet'') example_world
             = Some w
          \<and> map (\<lambda>r. (row_project_id r, row_session_number r, row_status r)) (db_sessions w)
             = [(1, 0, COMPLETED), (1, 1, RUNNING), (1, 2, RUNNING)]
          \<and> length (running_of (db_sessions w) 1) = 2
          \<and> \<not> at_most_one_running (db_sessions w)"
  proof (rule exI [of _ w], intro conjI)
    show "overlapping_calls example_env example_env 1 None (Some ''sonnet'') example_world
             = Some w" by (rule w)
    show "map (\<lambda>r. (row_project_id r, row_session_number r, row_status r)) (db_sessions w)
             = [(1, 0, COMPLETED), (1, 1, RUNNING), (1, 2, RUNNING)]" by (rule m)
    show "length (running_of (db_sessions w) 1) = 2" by (rule two)
    show "\<not> at_most_one_running (db_sessions w)" by (rule nw)
  qed
  with inv a b show ?thesis by (intro conjI)
qed


lemma ended_by_status:
  "row_status (ended_by e x) =
     (case e of KeyboardInterrupt \<Rightarrow> INTERRUPTED | Exception m \<Rightarrow> ERROR
      | CancelledError \<Rightarrow> row_status x | SystemExit \<Rightarrow> row_status x)"
  by (simp add: ended_by_def split: raised.splits)

lemma created_cases:
  assumes "sandbox_created env"
  shows "env_sandbox_start env = None \<or> (\<exists>e. env_sandbox_start env = Some (StartSandbox e))"
proof (cases "env_sandbox_start env")
  case None
  then show ?thesis by simp
next
  case (Some f)
  with assms show ?thesis by (cases f) (simp_all add: sandbox_created_def)
qed

lemma first_raised_start:
  "env_sandbox_start env = Some (StartSandbox e) \<Longrightarrow> first_raised env = Some e"
  by (simp add: first_raised_def)


lemma first_raised_none:
  assumes "first_raised env = None"
  shows "env_client env = None \<and> (\<exists>status response. env_agent env = Inr (status, response))
         \<and> (\<forall>e. env_sandbox_start env \<noteq> Some (StartSandbox e))"
proof -
  have s: "\<forall>e. env_sandbox_start env \<noteq> Some (StartSandbox e)"
  proof (intro allI notI)
    fix e assume "env_sandbox_start env = Some (StartSandbox e)"
    then have "first_raised env = Some e" by (rule first_raised_start)
    with assms show False by simp
  qed
  then have fr: "first_raised env =
      (case env_client env of
         Some e \<Rightarrow> Some e
       | None \<Rightarrow> (case env_agent env of Inl e \<Rightarrow> Some e | Inr r \<Rightarrow> None))"
    by (simp add: first_raised_def split: option.splits sandbox_failure.splits)
  from assms have c: "env_client env = None"
    unfolding fr by (cases "env_client env") simp_all
  from assms c have "\<exists>r. env_agent env = Inr r"
    unfolding fr by (cases "env_agent env") simp_all
  then have "\<exists>status response. env_agent env = Inr (status, response)" by auto
  with c s show ?thesis by blast
qed


lemma final_info_raised:
  assumes "first_raised env = Some e"
  shows "final_info env info =
     (case e of
        KeyboardInterrupt \<Rightarrow> info\<lparr>si_status := INTERRUPTED\<rparr>
      | Exception msg \<Rightarrow> info\<lparr>si_status := ERROR, si_error_message := Some msg\<rparr>
      | CancelledError \<Rightarrow> info
      | SystemExit \<Rightarrow> info)"
  by (cases e) (simp_all add: final_info_def assms)

lemma final_info_returned:
  assumes "first_raised env = None" and "env_agent env = Inr (status, response)"
  shows "final_info env info =
     (if status = ''error''
      then info\<lparr>si_status := ERROR, si_error_message := Some response\<rparr>
      else info\<lparr>si_status := COMPLETED\<rparr>)"
  by (simp add: final_info_def assms)

lemma final_info_id [simp]: "si_session_id (final_info env info) = si_session_id info"
proof (cases "first_raised env")
  case None
  from first_raised_none [OF None] obtain status response where
    "env_agent env = Inr (status, response)" by blast
  then show ?thesis by (simp add: final_info_returned [OF None])
next
  case (Some e)
  show ?thesis unfolding final_info_raised [OF Some] by (cases e) simp_all
qed

lemma final_info_type [simp]: "si_session_type (final_info env info) = si_session_type info"
proof (cases "first_raised env")
  case None
  from first_raised_none [OF None] obtain status response where
    "env_agent env = Inr (status, response)" by blast
  then show ?thesis by (simp add: final_info_returned [OF None])
next
  case (Some e)
  show ?thesis unfolding final_info_raised [OF Some] by (cases e) simp_all
qed


text \<open>
  What creating the sandbox object raises, and what the store write of the catching clause
  raises, reaches the caller too; in the first case the row is left pending and the session
  manager registered.
\<close>

lemma raised_before_block:
  assumes "admitted w pid im cm" and "env_sandbox_start env = Some (CreateSandbox e)"
  shows "start_session env pid im cm w =
           (Inl (Uncaught e), registered (allocated_row w pid im cm) w)"
  by (simp add: start_session_unfold [OF assms(1)] sandbox_created_def raises_def assms(2))

lemma raised_by_handler:
  assumes "admitted w pid im cm" and "sandbox_created env" and "first_raised env = Some e"
    and "caught e" and "env_handler_end_session env = Some e'"
  shows "fst (start_session env pid im cm w) = Inl (Uncaught e')"
proof -
  have "raises env = Some e'"
    using created_cases [OF assms(2)] by (auto simp: raises_def assms(3-5))
  then show ?thesis by (simp add: start_session_admitted(1) [OF assms(1)])
qed






lemma count_maybe_trigger:
  "c \<noteq> DeepReviewTask sid \<Longrightarrow>
   count_list (calls (maybe_trigger_deep_review sid q w)) c = count_list (calls w) c"
  by (simp add: maybe_trigger_deep_review_def split: option.splits)

lemma count_quality:
  "count_list (calls (run_quality_check env sid w)) (QualityCheck s) =
     count_list (calls w) (QualityCheck s) + (if s = sid then 1 else 0)"
  "count_list (calls (run_quality_check env sid w)) (TestCoverage p) =
     count_list (calls w) (TestCoverage p)"
  by (simp_all add: run_quality_check_def Let_def count_maybe_trigger split: option.splits)

lemma count_coverage:
  "count_list (calls (run_test_coverage_analysis env pid w)) (QualityCheck s) =
     count_list (calls w) (QualityCheck s)"
  "count_list (calls (run_test_coverage_analysis env pid w)) (TestCoverage p) =
     count_list (calls w) (TestCoverage p) + (if p = pid then 1 else 0)"
  by (simp_all add: run_test_coverage_analysis_def Let_def)

lemma after_agent_calls:
  "count_list (calls (snd (after_agent env init info status response w))) (QualityCheck s) =
     count_list (calls w) (QualityCheck s) + (if s = si_session_id info \<and> \<not> init then 1 else 0)"
  "count_list (calls (snd (after_agent env init info status response w))) (TestCoverage p) =
     count_list (calls w) (TestCoverage p)
       + (if p = si_project_id info \<and> init \<and> status \<noteq> ''error'' then 1 else 0)"
  "init \<Longrightarrow> db_quality_checks (snd (after_agent env init info status response w))
             = db_quality_checks w"
  by (simp_all add: after_agent_def Let_def count_quality count_coverage)

lemma try_except_returned:
  assumes "env_sandbox_start env = None" "env_client env = None"
    "env_agent env = Inr (status, response)"
  shows "snd (try_except env init info w) =
     snd (after_agent env init (info\<lparr>si_status := RUNNING\<rparr>) status response
       (let w3 = emit (si_project_id info) ''session_started''
                   (db_start_session (si_session_id info) (env_now env)
                      (set_current_logger (si_session_id info) True w));
            w4 = w3\<lparr>db_progress := (db_progress w3)(si_project_id info := env_progress_after env)\<rparr>
        in if env_stop_requested env then set_stop_after_current (si_project_id info) True w4
           else w4))"
  using assms
  by (simp add: try_except_def guarded_block_def begin_session_def continue_session_def
      Let_def case_prod_beta)

lemma returns_when_nothing_raised:
  assumes "env_sandbox_start env = None" "env_client env = None"
    "env_agent env = Inr (status, response)"
  shows "sandbox_created env" and "first_raised env = None" and "raises env = None"
  using assms by (simp_all add: sandbox_created_def first_raised_def raises_def)

lemma quality_checks_stored:
  "db_quality_checks (run_quality_check env sid w) =
     db_quality_checks w @
       (if env_jsonl_exists env
        then (case env_quality env of
                None \<Rightarrow> []
              | Some rating \<Rightarrow>
                  [\<lparr>qc_session_id = sid, qc_check_type = ''quick'', qc_overall_rating = rating\<rparr>])
        else [])"
  by (simp add: run_quality_check_def Let_def split: option.splits)

lemma after_agent_quality_checks:
  "db_quality_checks (snd (after_agent env init info status response w)) =
     (if init then db_quality_checks w
      else db_quality_checks (run_quality_check env (si_session_id info) w))"
  by (simp add: after_agent_def Let_def quality_checks_stored)

text \<open>
  C6: when the agent run of a session has returned, the quick quality check is run (once, on
  that session) exactly when the session is not an initializer session, and the test-coverage
  analysis is run (once, on the project) exactly when the session is an initializer session
  whose status is not \<open>error\<close>; an initializer session leaves the quality checks of the store
  as they were.
\<close>

theorem C6_checks_by_session_type:
  assumes "admitted w pid im cm"
    and "env_sandbox_start env = None" and "env_client env = None"
    and "env_agent env = Inr (status, response)"
  shows "(\<exists>info. fst (start_session env pid im cm w) = Inr info
            \<and> si_session_id info = fresh_id (db_sessions w)
            \<and> si_session_type info = (if is_first_session w pid then INITIALIZER else CODING))
       \<and> count_list (calls (snd (start_session env pid im cm w))) (QualityCheck s)
           = count_list (calls w) (QualityCheck s)
             + (if s = fresh_id (db_sessions w) \<and> \<not> is_first_session w pid then 1 else 0)
       \<and> count_list (calls (snd (start_session env pid im cm w))) (TestCoverage p)
           = count_list (calls w) (TestCoverage p)
             + (if p = pid \<and> is_first_session w pid \<and> status \<noteq> ''error'' then 1 else 0)
       \<and> db_quality_checks (snd (start_session env pid im cm w))
           = (if is_first_session w pid then db_quality_checks w
              else db_quality_checks
                     (run_quality_check env (fresh_id (db_sessions w)) w))"
proof -
  note nr = returns_when_nothing_raised [OF assms(2-4)]
  have "fst (start_session env pid im cm w)
          = Inr (final_info env (pending_info (allocated_row w pid im cm)))"
    by (simp add: start_session_admitted(1) [OF assms(1)] nr(3))
  moreover have "si_session_type (final_info env (pending_info (allocated_row w pid im cm)))
      = (if is_first_session w pid then INITIALIZER else CODING)"
    by (simp add: pending_info_def allocated_row_def)
  ultimately have 1: "\<exists>info. fst (start_session env pid im cm w) = Inr info
            \<and> si_session_id info = fresh_id (db_sessions w)
            \<and> si_session_type info = (if is_first_session w pid then INITIALIZER else CODING)"
    by simp
  have 2: "count_list (calls (snd (start_session env pid im cm w))) (QualityCheck s)
           = count_list (calls w) (QualityCheck s)
             + (if s = fresh_id (db_sessions w) \<and> \<not> is_first_session w pid then 1 else 0)"
    unfolding start_session_unfold [OF assms(1)]
    by (simp add: nr(1) try_except_returned [OF assms(2-4)] after_agent_calls Let_def)
  have 3: "count_list (calls (snd (start_session env pid im cm w))) (TestCoverage p)
           = count_list (calls w) (TestCoverage p)
             + (if p = pid \<and> is_first_session w pid \<and> status \<noteq> ''error'' then 1 else 0)"
    unfolding start_session_unfold [OF assms(1)]
    by (simp add: nr(1) try_except_returned [OF assms(2-4)] after_agent_calls Let_def)
  have 4: "db_quality_checks (snd (start_session env pid im cm w))
           = (if is_first_session w pid then db_quality_checks w
              else db_quality_checks
                     (run_quality_check env (fresh_id (db_sessions w)) w))"
    unfolding start_session_unfold [OF assms(1)]
    by (simp add: nr(1) try_except_returned [OF assms(2-4)] after_agent_quality_checks
        quality_checks_stored Let_def)
  from 1 2 3 4 show ?thesis by (intro conjI)
qed

theorem C6_checks_by_session_type_witness:
  "admitted example_world 1 None (Some ''sonnet'')
   \<and> count_list (calls (snd (start_session example_env 1 None (Some ''sonnet'') example_world)))
        (QualityCheck 1) = 1
   \<and> count_list (calls (snd (start_session example_env 1 None (Some ''sonnet'') example_world)))
        (TestCoverage 1) = 0
   \<and> admitted new_project_world 1 (Some ''opus'') None
   \<and> count_list (calls (snd (start_session example_env 1 (Some ''opus'') None new_project_world)))
        (QualityCheck 0) = 0
   \<and> count_list (calls (snd (start_session example_env 1 (Some ''opus'') None new_project_world)))
        (TestCoverage 1) = 1
   \<and> db_quality_checks (snd (start_session example_env 1 (Some ''opus'') None new_project_world))
        = []"
proof -
  have a: "admitted example_world 1 None (Some ''sonnet'')"
    by (simp add: admitted_def example_world_def get_active_session_def given_def)
  have b: "admitted new_project_world 1 (Some ''opus'') None"
    by (simp add: admitted_def new_project_world_def example_world_def get_active_session_def
        given_def)
  have e: "env_sandbox_start example_env = None" "env_client example_env = None"
    "env_agent example_env = Inr (''continue'', ''done'')"
    by (simp_all add: example_env_def)
  have f: "fresh_id (db_sessions example_world) = 1" "\<not> is_first_session example_world 1"
    "calls example_world = []"
    by (simp_all add: fresh_id_def example_world_def is_first_session_def)
  have g: "fresh_id (db_sessions new_project_world) = 0" "is_first_session new_project_world 1"
    "calls new_project_world = []" "db_quality_checks new_project_world = []"
    by (simp_all add: fresh_id_def new_project_world_def example_world_def is_first_session_def)
  from C6_checks_by_session_type [OF a e, of 1 1] C6_checks_by_session_type [OF b e, of 0 1]
    a b f g
  show ?thesis by simp
qed

text \<open>
  C10: \<open>stop_session\<close> on a session without a registered manager returns \<open>False\<close> and leaves
  the state, hence the stored status, unchanged; on a registered session it returns \<open>True\<close>,
  sets the manager's interrupted flag, and stores status \<open>interrupted\<close> with the given reason.
\<close>

theorem C10_stop_session:
  "(map_of (session_managers w) sid = None \<longrightarrow> stop_session sid reason w = (False, w))
   \<and> (\<forall>manager. map_of (session_managers w) sid = Some manager \<longrightarrow>
         fst (stop_session sid reason w) = True
         \<and> map_of (session_managers (snd (stop_session sid reason w))) sid
             = Some (manager\<lparr>interrupted := True\<rparr>)
         \<and> db_sessions (snd (stop_session sid reason w))
             = update_row sid (mark_ended INTERRUPTED None (Some reason)) (db_sessions w)
         \<and> fetch_session (snd (stop_session sid reason w)) sid
             = map_option (mark_ended INTERRUPTED None (Some reason)) (fetch_session w sid)
         \<and> row_status (mark_ended INTERRUPTED None (Some reason) row) = INTERRUPTED
         \<and> row_interruption_reason (mark_ended INTERRUPTED None (Some reason) row) = Some reason)"
proof (intro conjI impI allI)
  assume "map_of (session_managers w) sid = None"
  then show "stop_session sid reason w = (False, w)" by (simp add: stop_session_def)
next
  fix manager assume m: "map_of (session_managers w) sid = Some manager"
  then show "fst (stop_session sid reason w) = True" by (simp add: stop_session_def)
  from m show "map_of (session_managers (snd (stop_session sid reason w))) sid
             = Some (manager\<lparr>interrupted := True\<rparr>)"
    by (simp add: stop_session_def map_of_dict_set)
  from m show "db_sessions (snd (stop_session sid reason w))
             = update_row sid (mark_ended INTERRUPTED None (Some reason)) (db_sessions w)"
    by (simp add: stop_session_def)
  from m show "fetch_session (snd (stop_session sid reason w)) sid
             = map_option (mark_ended INTERRUPTED None (Some reason)) (fetch_session w sid)"
    by (simp add: stop_session_def fetch_session_def find_update_row)
  show "row_status (mark_ended INTERRUPTED None (Some reason) row) = INTERRUPTED" by simp
  show "row_interruption_reason (mark_ended INTERRUPTED None (Some reason) row) = Some reason"
    by (simp add: mark_ended_def)
qed

theorem C10_stop_session_witness:
  "map_of (session_managers orphan_world) 1 = None
   \<and> fetch_session orphan_world 1 = Some running_row
   \<and> stop_session 1 ''User requested immediate stop'' orphan_world = (False, orphan_world)
   \<and> map_of (session_managers busy_world) 1 = Some \<lparr>interrupted = False, current_logger = True\<rparr>
   \<and> fst (stop_session 1 ''User requested immediate stop'' busy_world) = True
   \<and> map_option row_status
        (fetch_session (snd (stop_session 1 ''User requested immediate stop'' busy_world)) 1)
       = Some INTERRUPTED
   \<and> map_option row_interruption_reason
        (fetch_session (snd (stop_session 1 ''User requested immediate stop'' busy_world)) 1)
       = Some (Some ''User requested immediate stop'')"
proof -
  have a: "map_of (session_managers orphan_world) 1 = None"
    by (simp add: orphan_world_def)
  have b: "map_of (session_managers busy_world) 1
             = Some \<lparr>interrupted = False, current_logger = True\<rparr>"
    by (simp add: busy_world_def)
  have c: "fetch_session busy_world 1 = Some running_row"
    "fetch_session orphan_world 1 = Some running_row"
    by (simp_all add: orphan_world_def busy_world_def example_world_def fetch_session_def
        running_row_def)
  from C10_stop_session [of orphan_world 1 "''User requested immediate stop''" running_row]
    C10_stop_session [of busy_world 1 "''User requested immediate stop''" running_row] a b c
  show ?thesis by (simp add: mark_ended_def)
qed

lemma last_deep_quick:
  "last_deep_reviewed_number
     (w\<lparr>db_quality_checks := db_quality_checks w @
          [\<lparr>qc_session_id = sid, qc_check_type = ''quick'', qc_overall_rating = rating\<rparr>]\<rparr>) pid
   = last_deep_reviewed_number w pid"
  by (simp add: last_deep_reviewed_number_def)

lemma should_trigger_policy:
  "should_trigger_deep_review w pid n q = trigger_policy n (last_deep_reviewed_number w pid) q"
  by (auto simp: should_trigger_deep_review_def trigger_policy_def split: option.splits)

lemma should_trigger_quick:
  "should_trigger_deep_review
     (w\<lparr>db_quality_checks := db_quality_checks w @
          [\<lparr>qc_session_id = sid, qc_check_type = ''quick'', qc_overall_rating = rating\<rparr>]\<rparr>) pid n q
   = should_trigger_deep_review w pid n q"
  by (simp add: should_trigger_deep_review_def last_deep_quick)

text \<open>
  C2: after the quick quality check of a session, the deep review is spawned if and only if
  the session number is a multiple of 5 from 5 on, or no deep review is recorded for the
  project and the session number is at least 5, or the session number exceeds the last
  deep-reviewed one by 5 or more, or the quick rating is below 7. At session 4 with rating 8
  nothing fires; at session 5 it fires.
\<close>

theorem C2_deep_review_trigger:
  "should_trigger_deep_review w pid n quality
     = trigger_policy n (last_deep_reviewed_number w pid) quality
   \<and> (\<forall>row. fetch_session w sid = Some row \<longrightarrow>
         calls (maybe_trigger_deep_review sid quality w)
           = calls w @
             (if trigger_policy (row_session_number row)
                   (last_deep_reviewed_number w (row_project_id row)) quality
              then [DeepReviewTask sid] else []))
   \<and> (\<forall>row. fetch_session w sid = Some row \<and> env_jsonl_exists env
           \<and> env_quality env = Some quality \<longrightarrow>
         calls (run_quality_check env sid w)
           = calls w @ [QualityCheck sid] @
             (if trigger_policy (row_session_number row)
                   (last_deep_reviewed_number w (row_project_id row)) quality
              then [DeepReviewTask sid] else []))
   \<and> \<not> should_trigger_deep_review w pid 4 8
   \<and> should_trigger_deep_review w pid 5 quality"
proof (intro conjI allI impI)
  show "should_trigger_deep_review w pid n quality
     = trigger_policy n (last_deep_reviewed_number w pid) quality"
    by (rule should_trigger_policy)
next
  fix row assume "fetch_session w sid = Some row"
  then show "calls (maybe_trigger_deep_review sid quality w)
           = calls w @
             (if trigger_policy (row_session_number row)
                   (last_deep_reviewed_number w (row_project_id row)) quality
              then [DeepReviewTask sid] else [])"
    by (simp add: maybe_trigger_deep_review_def should_trigger_policy)
next
  fix row assume h: "fetch_session w sid = Some row \<and> env_jsonl_exists env
           \<and> env_quality env = Some quality"
  then show "calls (run_quality_check env sid w)
           = calls w @ [QualityCheck sid] @
             (if trigger_policy (row_session_number row)
                   (last_deep_reviewed_number w (row_project_id row)) quality
              then [DeepReviewTask sid] else [])"
    by (simp add: run_quality_check_def Let_def maybe_trigger_deep_review_def fetch_session_def
        should_trigger_policy last_deep_reviewed_number_def)
next
  show "\<not> should_trigger_deep_review w pid 4 8"
    by (simp add: should_trigger_deep_review_def split: option.splits)
  show "should_trigger_deep_review w pid 5 quality"
    by (simp add: should_trigger_deep_review_def)
qed

theorem C2_deep_review_trigger_witness:
  "fetch_session review_world 2 \<noteq> None
   \<and> last_deep_reviewed_number review_world 1 = Some 5
   \<and> calls (maybe_trigger_deep_review 2 8 review_world) = [DeepReviewTask 2]
   \<and> calls (run_quality_check example_env 2 review_world) = [QualityCheck 2, DeepReviewTask 2]
   \<and> calls (maybe_trigger_deep_review 1 8 (review_world\<lparr>db_quality_checks := []\<rparr>))
       = [DeepReviewTask 1]"
proof -
  have f: "fetch_session review_world 2 =
      Some \<lparr>row_id = 2, row_project_id = 1, row_session_number = 11,
          row_session_type = CODING, row_model = ''sonnet'', row_status = COMPLETED,
          row_started_at = None, row_error_message = None, row_interruption_reason = None\<rparr>"
    by (simp add: fetch_session_def review_world_def)
  have g: "fetch_session (review_world\<lparr>db_quality_checks := []\<rparr>) 1 =
      Some \<lparr>row_id = 1, row_project_id = 1, row_session_number = 5,
          row_session_type = CODING, row_model = ''sonnet'', row_status = COMPLETED,
          row_started_at = None, row_error_message = None, row_interruption_reason = None\<rparr>"
    by (simp add: fetch_session_def review_world_def)
  have l: "last_deep_reviewed_number review_world 1 = Some 5"
    by (simp add: last_deep_reviewed_number_def review_world_def)
  have e: "env_jsonl_exists example_env" "env_quality example_env = Some 8"
    by (simp_all add: example_env_def)
  have c: "calls review_world = []" by (simp add: review_world_def)
  from C2_deep_review_trigger [of review_world 1 11 8 2 example_env]
    C2_deep_review_trigger [of "review_world\<lparr>db_quality_checks := []\<rparr>" 1 5 8 1 example_env]
    f g l e c
  show ?thesis by (simp add: trigger_policy_def)
qed

lemma orchestrate_agent_one_session:
  assumes "fst (start_session env pid im cm w) = Inr info" and "si_status info = COMPLETED"
  shows "orchestrate_agent [env] pid im cm None w = (None, snd (start_session env pid im cm w))"
proof -
  obtain r w1 where sw: "start_session env pid im cm w = (r, w1)" by fastforce
  with assms(1) have r: "r = Inr info" by simp
  show ?thesis
    unfolding orchestrate_agent_def
    by (simp add: reached_def sw r assms(2))
qed

text \<open>
  C4: \<open>max_iterations = 0\<close> is treated as unlimited by \<open>start_coding_sessions\<close> only. The loop
  of \<open>orchestrate_agent\<close> and the loop of the legacy endpoint stop at once with 0 and start
  no session, while with \<open>None\<close> they start one.
\<close>

theorem C4_zero_runs_no_session:
  "orchestrate_agent envs pid im cm (Some 0) w = (Some (Inr None), w)
   \<and> legacy_loop envs pid im' cm' (Some 0) 0 w
       = (True, notify_project_update pid ''auto_continue_stopped'' w)
   \<and> start_coding_sessions envs dm pid cm (Some 0) w
       = start_coding_sessions envs dm pid cm None w
   \<and> length (db_sessions (snd (orchestrate_agent [example_env] 1 None (Some ''sonnet'') None
        example_world))) = length (db_sessions example_world) + 1
   \<and> length (db_sessions (snd (orchestrate_agent [example_env] 1 None (Some ''sonnet'') (Some 0)
        example_world))) = length (db_sessions example_world)"
proof -
  have a: "admitted example_world 1 None (Some ''sonnet'')"
    by (simp add: admitted_def example_world_def get_active_session_def given_def)
  have c: "si_status (final_info example_env
       (pending_info (allocated_row example_world 1 None (Some ''sonnet'')))) = COMPLETED"
    by (simp add: final_info_def first_raised_def example_env_def)
  have nr: "raises example_env = None"
    by (simp add: raises_def first_raised_def example_env_def)
  have ret: "fst (start_session example_env 1 None (Some ''sonnet'') example_world)
      = Inr (final_info example_env
               (pending_info (allocated_row example_world 1 None (Some ''sonnet''))))"
    unfolding start_session_admitted(1) [OF a] nr by simp
  have len: "length (db_sessions (snd (start_session example_env 1 None (Some ''sonnet'')
      example_world))) = length (db_sessions example_world) + 1"
    unfolding start_session_admitted(2) [OF a] by simp
  have "orchestrate_agent [example_env] 1 None (Some ''sonnet'') None example_world
      = (None, snd (start_session example_env 1 None (Some ''sonnet'') example_world))"
    by (rule orchestrate_agent_one_session [OF ret c])
  then have one: "length (db_sessions (snd (orchestrate_agent [example_env] 1 None
       (Some ''sonnet'') None example_world))) = length (db_sessions example_world) + 1"
    by (simp only: snd_conv len)
  have zero: "\<And>envs pid im cm w. orchestrate_agent envs pid im cm (Some 0) w = (Some (Inr None), w)"
    by (simp add: orchestrate_agent_def reached_def)
  show ?thesis
    using one by (simp add: zero reached_def start_coding_sessions_def)
qed

lemma frame_event_callback [simp]:
  "event_callback (write_sessions rows w) = event_callback w"
  "event_callback (db_start_session sid now w) = event_callback w"
  "event_callback (end_session sid st e r w) = event_callback w"
  "event_callback (set_current_logger sid b w) = event_callback w"
  "event_callback (registered x w) = event_callback w"
  by (simp_all add: write_sessions_def db_start_session_def end_session_def
      set_current_logger_def registered_def)

lemma published_after_agent [simp]:
  "published (snd (after_agent env init info status response w)) = published w"
  "stop_after_current (snd (after_agent env init info status response w)) = stop_after_current w"
  by (simp_all add: after_agent_def Let_def)

lemma frame_handle_raised [simp]:
  "published (snd (handle_raised env e info w)) = published w"
  "stop_after_current (snd (handle_raised env e info w)) = stop_after_current w"
  by (cases e; cases "env_handler_end_session env"; simp add: handle_raised_def Let_def)+

lemma frame_continue_session:
  "published (snd (continue_session env init info w)) = published w"
  "env_client env = None \<Longrightarrow>
   stop_after_current (snd (continue_session env init info w)) =
     (if env_stop_requested env then dict_set (stop_after_current w) (si_project_id info) True
      else stop_after_current w)"
proof -
  show "published (snd (continue_session env init info w)) = published w"
    by (cases "env_client env"; cases "env_agent env")
       (simp_all add: continue_session_def Let_def case_prod_beta)
  assume "env_client env = None"
  then show "stop_after_current (snd (continue_session env init info w)) =
     (if env_stop_requested env then dict_set (stop_after_current w) (si_project_id info) True
      else stop_after_current w)"
    by (cases "env_agent env")
       (simp_all add: continue_session_def Let_def case_prod_beta set_stop_after_current_def)
qed

lemma try_except_snd:
  "snd (try_except env init info w) =
     (case fst (guarded_block env init info w) of
        Inr i \<Rightarrow> snd (guarded_block env init info w)
      | Inl e \<Rightarrow> snd (handle_raised env e info (snd (guarded_block env init info w))))"
  by (simp add: try_except_def case_prod_beta split: sum.splits)

lemma guarded_block_started:
  assumes "\<And>e. env_sandbox_start env \<noteq> Some (StartSandbox e)"
  shows "guarded_block env init info w =
     continue_session env init (info\<lparr>si_status := RUNNING\<rparr>)
       (emit (si_project_id info) ''session_started''
          (db_start_session (si_session_id info) (env_now env)
             (set_current_logger (si_session_id info) True w)))"
  by (simp add: guarded_block_def begin_session_started [OF assms])

lemma published_try_except:
  "published (snd (try_except env init info w)) =
     published w @
       (if (\<forall>e. env_sandbox_start env \<noteq> Some (StartSandbox e)) \<and> event_callback w
        then [(si_project_id info, ''session_started'')] else [])"
proof (cases "\<exists>e. env_sandbox_start env = Some (StartSandbox e)")
  case True
  then obtain e where f: "env_sandbox_start env = Some (StartSandbox e)" by blast
  have "try_except env init info w = handle_raised env e info w"
    by (simp add: try_except_def guarded_block_def begin_session_failed [OF f])
  then show ?thesis using f by simp
next
  case False
  then have ns: "\<And>e. env_sandbox_start env \<noteq> Some (StartSandbox e)" by blast
  have "published (snd (try_except env init info w)) =
      published (snd (guarded_block env init info w))"
    unfolding try_except_snd by (cases "fst (guarded_block env init info w)") simp_all
  also have "\<dots> = published w @
       (if event_callback w then [(si_project_id info, ''session_started'')] else [])"
    unfolding guarded_block_started [OF ns]
    by (simp add: frame_continue_session emit_def notify_project_update_def)
  finally show ?thesis using ns by simp
qed

lemma stop_flag_try_except:
  assumes "env_sandbox_start env = None" "env_client env = None"
  shows "stop_after_current (snd (try_except env init info w)) =
     (if env_stop_requested env then dict_set (stop_after_current w) (si_project_id info) True
      else stop_after_current w)"
proof -
  have ns: "\<And>e. env_sandbox_start env \<noteq> Some (StartSandbox e)" using assms(1) by simp
  have "stop_after_current (snd (try_except env init info w)) =
      stop_after_current (snd (guarded_block env init info w))"
    unfolding try_except_snd by (cases "fst (guarded_block env init info w)") simp_all
  also have "\<dots> = (if env_stop_requested env
       then dict_set (stop_after_current w) (si_project_id info) True
       else stop_after_current w)"
    unfolding guarded_block_started [OF ns]
    by (simp add: frame_continue_session(2) [OF assms(2)])
  finally show ?thesis .
qed

lemma start_session_events:
  "event_types (snd (start_session env pid im cm w)) \<subseteq> event_types w \<union> loop_event_types"
proof (cases "admitted w pid im cm")
  case False
  then obtain e where "start_session env pid im cm w = (Inl e, w)"
    using start_session_rejected by blast
  then show ?thesis by simp
next
  case True
  show ?thesis
    unfolding start_session_unfold [OF True] event_types_def
    by (auto simp: published_try_except loop_event_types_def split: if_splits)
qed

lemma break_events:
  assumes "coding_loop_break pid max_iterations iteration w = Some w'"
  shows "event_types w' \<subseteq> event_types w \<union> loop_event_types"
  using assms
  by (auto simp: coding_loop_break_def event_types_def loop_event_types_def Let_def emit_def
      notify_project_update_def split: if_splits)

lemma emit_events:
  "ev \<in> loop_event_types \<Longrightarrow> event_types (emit pid ev w) \<subseteq> event_types w \<union> loop_event_types"
  by (auto simp: emit_def notify_project_update_def event_types_def)

lemma mark_complete_events [simp]:
  "event_types (mark_project_complete pid w) = event_types w"
  by (simp add: mark_project_complete_def event_types_def)

lemma coding_loop_step:
  assumes "coding_loop_break pid max_iterations iteration w = None"
    and "start_session env pid None (Some model)
           (if iteration + 1 > 1 then emit pid ''auto_continue_delay'' w else w) = (r, w2)"
  shows "coding_loop (env # envs) pid model max_iterations iteration last_session w =
     (case r of
        Inl e \<Rightarrow> (Some (Inl e), w2)
      | Inr session \<Rightarrow>
          if si_status session = ERROR \<or> si_status session = INTERRUPTED
          then (Some (Inr (Some session)), w2)
          else if total_tasks (db_progress w2 pid) > 0
                  \<and> completed_tasks (db_progress w2 pid) \<ge> total_tasks (db_progress w2 pid)
          then (Some (Inr (Some session)),
                emit pid ''project_complete'' (mark_project_complete pid w2))
          else coding_loop envs pid model max_iterations (iteration + 1) (Some session) w2)"
  using assms by (simp add: Let_def split: sum.splits)

lemma coding_loop_events:
  "event_types (snd (coding_loop envs pid model max_iterations iteration last_session w))
     \<subseteq> event_types w \<union> loop_event_types"
proof (induction envs arbitrary: iteration last_session w)
  case Nil
  show ?case
  proof (cases "coding_loop_break pid max_iterations iteration w")
    case None
    then show ?thesis by simp
  next
    case (Some w')
    then show ?thesis using break_events [OF Some] by simp
  qed
next
  case (Cons env envs)
  show ?case
  proof (cases "coding_loop_break pid max_iterations iteration w")
    case (Some w')
    then show ?thesis using break_events [OF Some] by simp
  next
    case None
    define w1 where "w1 = (if iteration + 1 > 1 then emit pid ''auto_continue_delay'' w else w)"
    have e1: "event_types w1 \<subseteq> event_types w \<union> loop_event_types"
      unfolding w1_def using emit_events [of "''auto_continue_delay''" pid w]
      by (auto simp: loop_event_types_def)
    obtain r w2 where sw: "start_session env pid None (Some model) w1 = (r, w2)" by fastforce
    have "event_types w2 \<subseteq> event_types w1 \<union> loop_event_types"
      using start_session_events [of env pid None "Some model" w1] by (simp add: sw)
    with e1 have e2: "event_types w2 \<subseteq> event_types w \<union> loop_event_types" by blast
    have "event_types (emit pid ''project_complete'' (mark_project_complete pid w2))
                \<subseteq> event_types w2 \<union> loop_event_types"
      using emit_events [of "''project_complete''" pid "mark_project_complete pid w2"]
      by (auto simp: loop_event_types_def)
    with e2 have e3: "event_types (emit pid ''project_complete'' (mark_project_complete pid w2))
                \<subseteq> event_types w \<union> loop_event_types" by blast
    have "\<And>s. event_types (snd (coding_loop envs pid model max_iterations (iteration + 1)
                  (Some s) w2)) \<subseteq> event_types w2 \<union> loop_event_types"
      by (rule Cons.IH)
    with e2 have e4: "\<And>s. event_types (snd (coding_loop envs pid model max_iterations
                  (iteration + 1) (Some s) w2)) \<subseteq> event_types w \<union> loop_event_types" by blast
    note step = coding_loop_step [OF None sw [unfolded w1_def], of envs last_session]
    show ?thesis
    proof (cases r)
      case (Inl e)
      with e2 show ?thesis unfolding step by simp
    next
      case (Inr session)
      with e2 e3 e4 [of session] show ?thesis unfolding step by simp
    qed
  qed
qed

lemma run_coding_events:
  "event_types (snd (run_coding envs dm pid cm max_iterations w))
     \<subseteq> event_types w \<union> loop_event_types
        \<union> {''coding_sessions_complete'', ''coding_sessions_error''}"
proof -
  have "event_types (snd (start_coding_sessions envs dm pid cm max_iterations w))
           \<subseteq> event_types w \<union> loop_event_types"
    using coding_loop_events by (simp add: start_coding_sessions_def Let_def split: option.splits)
  moreover obtain r w' where sw: "start_coding_sessions envs dm pid cm max_iterations w = (r, w')"
    by fastforce
  ultimately have "event_types w' \<subseteq> event_types w \<union> loop_event_types" by simp
  then show ?thesis
    unfolding run_coding_def sw
    by (auto simp: notify_project_update_def event_types_def
        split: option.splits sum.splits)
qed

lemma loop_stops_on_flag:
  assumes "should_stop_after_current w pid" and "\<not> reached max_iterations iteration"
  shows "coding_loop envs pid model max_iterations iteration last_session w =
     (Some (Inr last_session),
      w\<lparr>stop_after_current := dict_set (stop_after_current w) pid False\<rparr>)"
  using assms
  by (cases envs) (simp_all add: coding_loop_break_def should_stop_after_current_def)

lemma loop_with_flag_creates_nothing:
  assumes "should_stop_after_current w pid"
  shows "fst (coding_loop envs pid model max_iterations iteration last_session w)
           = Some (Inr last_session)
       \<and> db_sessions (snd (coding_loop envs pid model max_iterations iteration last_session w))
           = db_sessions w"
  using assms
  by (cases envs) (simp_all add: coding_loop_break_def should_stop_after_current_def)

lemma first_raised_stop [simp]:
  "first_raised (env\<lparr>env_stop_requested := b\<rparr>) = first_raised env"
  by (simp add: first_raised_def cong: option.case_cong sandbox_failure.case_cong)

lemma raises_stop [simp]:
  "raises (env\<lparr>env_stop_requested := b\<rparr>) = raises env"
  by (simp add: raises_def cong: option.case_cong sandbox_failure.case_cong if_cong)

lemma final_info_stop [simp]:
  "final_info (env\<lparr>env_stop_requested := b\<rparr>) info = final_info env info"
  by (simp add: final_info_def cong: option.case_cong raised.case_cong)

lemma row_writes_stop [simp]:
  "row_writes (env\<lparr>env_stop_requested := b\<rparr>) x = row_writes env x"
  by (simp add: row_writes_def handler_writes_def case_prod_beta
      cong: option.case_cong sandbox_failure.case_cong sum.case_cong if_cong)

lemma final_row_stop [simp]:
  "final_row (env\<lparr>env_stop_requested := b\<rparr>) x = final_row env x"
  by (simp add: final_row_def)

lemma stop_request_leaves_session:
  "fst (start_session (env\<lparr>env_stop_requested := True\<rparr>) pid im cm w)
     = fst (start_session (env\<lparr>env_stop_requested := False\<rparr>) pid im cm w)
   \<and> db_sessions (snd (start_session (env\<lparr>env_stop_requested := True\<rparr>) pid im cm w))
     = db_sessions (snd (start_session (env\<lparr>env_stop_requested := False\<rparr>) pid im cm w))"
proof (cases "admitted w pid im cm")
  case True
  then show ?thesis by (simp add: start_session_admitted cong: option.case_cong)
next
  case False
  from admit_rejected [OF False] obtain e where "admit pid im cm w = (Inl e, w)" by blast
  then show ?thesis by (simp add: start_session_def)
qed

lemma stop_flag_after_session:
  assumes "admitted w pid im cm" "env_sandbox_start env = None" "env_client env = None"
    "env_stop_requested env"
  shows "should_stop_after_current (snd (start_session env pid im cm w)) pid"
  unfolding start_session_unfold [OF assms(1)] should_stop_after_current_def
  by (simp add: sandbox_created_def assms(2) stop_flag_try_except [OF assms(2,3)] assms(4)
      dict_get_def map_of_dict_set)

lemma graceful_stop_run:
  "map_prod id observed
     (run_coding [stop_env, example_env] ''sonnet'' 1 None (Some 5) example_world)
   = (True, [COMPLETED, COMPLETED], [(1, False)],
      [(1, ''session_started''), (1, ''coding_sessions_complete'')])"
  by code_simp

text \<open>
  C5, as stated: a graceful stop would end with an \<open>auto_continue_stopped\<close> event. In this
  run of the \<open>/coding/start\<close> task the stop is requested while the first session runs: the
  session completes, no second session is created, the flag is cleared, and the events
  published are \<open>session_started\<close> and \<open>coding_sessions_complete\<close> only.
\<close>

theorem C5_no_stopped_event_counterexample:
  "fst (run_coding [stop_env, example_env] ''sonnet'' 1 None (Some 5) example_world)
   \<and> observed (snd (run_coding [stop_env, example_env] ''sonnet'' 1 None (Some 5)
        example_world))
       = ([COMPLETED, COMPLETED], [(1, False)],
          [(1, ''session_started''), (1, ''coding_sessions_complete'')])
   \<and> ''auto_continue_stopped'' \<notin> event_types
        (snd (run_coding [stop_env, example_env] ''sonnet'' 1 None (Some 5) example_world))"
proof -
  obtain fin w where r: "run_coding [stop_env, example_env] ''sonnet'' 1 None (Some 5)
      example_world = (fin, w)" by fastforce
  from graceful_stop_run have f: "fin = True"
    and o: "observed w = ([COMPLETED, COMPLETED], [(1, False)],
          [(1, ''session_started''), (1, ''coding_sessions_complete'')])"
    unfolding r by simp_all
  from o have "published w = [(1, ''session_started''), (1, ''coding_sessions_complete'')]"
    by (simp add: observed_def)
  then have "''auto_continue_stopped'' \<notin> event_types w" by (simp add: event_types_def)
  with f o show ?thesis unfolding r by simp
qed

text \<open>
  C5, amended: when the per-project \<open>stop_after_current\<close> flag is set while a coding loop is
  running, the running session finishes as it would have without the request (its result and
  its row are the same), the flag stays set until the loop observes it, and the loop that
  finds it set at the top of an iteration creates no further session and returns the last
  one, clearing the flag unless the iteration limit is reached first. No
  \<open>auto_continue_stopped\<close> event is published by the coding loop or by the
  \<open>/coding/start\<close> task: they publish only
  \<open>session_started\<close>, \<open>auto_continue_delay\<close>, \<open>all_epics_complete\<close>, \<open>project_complete\<close>,
  and \<open>coding_sessions_complete\<close> or \<open>coding_sessions_error\<close> at the end.
\<close>

theorem C5_graceful_stop:
  "fst (start_session (env\<lparr>env_stop_requested := True\<rparr>) pid im cm w)
     = fst (start_session (env\<lparr>env_stop_requested := False\<rparr>) pid im cm w)
   \<and> db_sessions (snd (start_session (env\<lparr>env_stop_requested := True\<rparr>) pid im cm w))
     = db_sessions (snd (start_session (env\<lparr>env_stop_requested := False\<rparr>) pid im cm w))
   \<and> (admitted w pid im cm \<and> env_sandbox_start env = None \<and> env_client env = None
        \<and> env_stop_requested env \<longrightarrow>
        should_stop_after_current (snd (start_session env pid im cm w)) pid)
   \<and> (should_stop_after_current w pid \<and> \<not> reached max_iterations iteration \<longrightarrow>
        coding_loop envs pid model max_iterations iteration last_session w
          = (Some (Inr last_session),
             w\<lparr>stop_after_current := dict_set (stop_after_current w) pid False\<rparr>))
   \<and> (should_stop_after_current w pid \<longrightarrow>
        fst (coding_loop envs pid model max_iterations iteration last_session w)
          = Some (Inr last_session)
        \<and> db_sessions (snd (coding_loop envs pid model max_iterations iteration last_session w))
          = db_sessions w)
   \<and> event_types (snd (run_coding envs model pid cm max_iterations w))
        \<subseteq> event_types w \<union> loop_event_types
           \<union> {''coding_sessions_complete'', ''coding_sessions_error''}
   \<and> ''auto_continue_stopped'' \<notin> loop_event_types
          \<union> {''coding_sessions_complete'', ''coding_sessions_error''}"
proof (intro conjI impI)
  assume "should_stop_after_current w pid"
  then show "fst (coding_loop envs pid model max_iterations iteration last_session w)
          = Some (Inr last_session)"
    using loop_with_flag_creates_nothing by blast
next
  assume "should_stop_after_current w pid"
  then show "db_sessions (snd (coding_loop envs pid model max_iterations iteration last_session w))
          = db_sessions w"
    using loop_with_flag_creates_nothing by blast
next
  show "fst (start_session (env\<lparr>env_stop_requested := True\<rparr>) pid im cm w)
     = fst (start_session (env\<lparr>env_stop_requested := False\<rparr>) pid im cm w)"
    using stop_request_leaves_session by blast
  show "db_sessions (snd (start_session (env\<lparr>env_stop_requested := True\<rparr>) pid im cm w))
     = db_sessions (snd (start_session (env\<lparr>env_stop_requested := False\<rparr>) pid im cm w))"
    using stop_request_leaves_session by blast
  show "event_types (snd (run_coding envs model pid cm max_iterations w))
        \<subseteq> event_types w \<union> loop_event_types
           \<union> {''coding_sessions_complete'', ''coding_sessions_error''}"
    by (rule run_coding_events)
  show "''auto_continue_stopped'' \<notin> loop_event_types
          \<union> {''coding_sessions_complete'', ''coding_sessions_error''}"
    by (simp add: loop_event_types_def)
next
  assume "admitted w pid im cm \<and> env_sandbox_start env = None \<and> env_client env = None
        \<and> env_stop_requested env"
  then show "should_stop_after_current (snd (start_session env pid im cm w)) pid"
    using stop_flag_after_session by blast
next
  assume "should_stop_after_current w pid \<and> \<not> reached max_iterations iteration"
  then show "coding_loop envs pid model max_iterations iteration last_session w
          = (Some (Inr last_session),
             w\<lparr>stop_after_current := dict_set (stop_after_current w) pid False\<rparr>)"
    using loop_stops_on_flag by blast
qed

theorem C5_graceful_stop_witness:
  "admitted example_world 1 None (Some ''sonnet'')
   \<and> env_stop_requested stop_env
   \<and> should_stop_after_current
        (snd (start_session stop_env 1 None (Some ''sonnet'') example_world)) 1
   \<and> should_stop_after_current flagged_world 1
   \<and> \<not> reached (Some 5) 1
   \<and> fst (coding_loop [example_env] 1 ''sonnet'' (Some 5) 1 None flagged_world)
       = Some (Inr None)
   \<and> db_sessions (snd (coding_loop [example_env] 1 ''sonnet'' (Some 5) 1 None flagged_world))
       = db_sessions flagged_world
   \<and> \<not> should_stop_after_current
         (snd (coding_loop [example_env] 1 ''sonnet'' (Some 5) 1 None flagged_world)) 1"
proof -
  have a: "admitted example_world 1 None (Some ''sonnet'')"
    by (simp add: admitted_def example_world_def get_active_session_def given_def)
  have e: "env_sandbox_start stop_env = None" "env_client stop_env = None"
    "env_stop_requested stop_env"
    by (simp_all add: stop_env_def example_env_def)
  have f: "should_stop_after_current flagged_world 1"
    by (simp add: flagged_world_def should_stop_after_current_def set_stop_after_current_def
        dict_get_def example_world_def)
  have r: "\<not> reached (Some 5) 1" by (simp add: reached_def)
  from C5_graceful_stop [of stop_env 1 None "Some ''sonnet''" example_world "Some 5" 1
      "[example_env]" "''sonnet''" None] a e
  have 1: "should_stop_after_current
        (snd (start_session stop_env 1 None (Some ''sonnet'') example_world)) 1" by blast
  from C5_graceful_stop [of stop_env 1 None "Some ''sonnet''" flagged_world "Some 5" 1
      "[example_env]" "''sonnet''" None] f r
  have 2: "coding_loop [example_env] 1 ''sonnet'' (Some 5) 1 None flagged_world
          = (Some (Inr None),
             flagged_world\<lparr>stop_after_current :=
               dict_set (stop_after_current flagged_world) 1 False\<rparr>)" by blast
  have 3: "\<not> should_stop_after_current
      (flagged_world\<lparr>stop_after_current := dict_set (stop_after_current flagged_world) 1 False\<rparr>) 1"
    by (simp add: should_stop_after_current_def dict_get_def map_of_dict_set)
  from a e f r 1 2 3 show ?thesis by simp
qed

section \<open>Properties of applying a proposal\<close>

text \<open>
  C8: for an existing proposal, applying it fails with the state-violation error (status 400,
  "must be accepted") exactly when its status is not \<open>accepted\<close>, and then nothing is
  written; when the status is \<open>accepted\<close>, the operation succeeds and the proposal's status
  becomes \<open>implemented\<close>. For a well-formed identifier of no proposal the error is 404.
\<close>

theorem C8_apply_proposal:
  "(parse_uuid proposal_id = Some u \<and> proposals u = Some p \<longrightarrow>
      ((fst (apply_proposal parse_uuid proposal_id proposals)
          = Inl (HTTPException 400 ''Proposal must be 'accepted' before applying''))
        = (pr_status p \<noteq> ''accepted''))
      \<and> ((\<exists>e. fst (apply_proposal parse_uuid proposal_id proposals) = Inl e)
        = (pr_status p \<noteq> ''accepted''))
      \<and> (pr_status p \<noteq> ''accepted'' \<longrightarrow>
            snd (apply_proposal parse_uuid proposal_id proposals) = proposals)
      \<and> (pr_status p = ''accepted'' \<longrightarrow>
            (\<exists>r. fst (apply_proposal parse_uuid proposal_id proposals) = Inr r \<and> ar_success r)
            \<and> map_option pr_status (snd (apply_proposal parse_uuid proposal_id proposals) u)
                = Some ''implemented''))
   \<and> (parse_uuid proposal_id = Some u \<and> proposals u = None \<longrightarrow>
        apply_proposal parse_uuid proposal_id proposals
          = (Inl (HTTPException 404 ''Proposal not found''), proposals))"
  by (auto simp: apply_proposal_def update_prompt_proposal_status_def)

theorem C8_apply_proposal_witness:
  "example_parse_uuid ''00000000-0000-0000-0000-000000000001'' = Some 1
   \<and> map_option pr_status (example_proposals 1) = Some ''accepted''
   \<and> (\<exists>r. fst (apply_proposal example_parse_uuid ''00000000-0000-0000-0000-000000000001''
               example_proposals) = Inr r \<and> ar_success r)
   \<and> map_option pr_status
        (snd (apply_proposal example_parse_uuid ''00000000-0000-0000-0000-000000000001''
           example_proposals) 1) = Some ''implemented''
   \<and> fst (apply_proposal example_parse_uuid ''00000000-0000-0000-0000-000000000002''
        example_proposals)
       = Inl (HTTPException 400 ''Proposal must be 'accepted' before applying'')
   \<and> apply_proposal example_parse_uuid ''00000000-0000-0000-0000-000000000003''
        example_proposals
       = (Inl (HTTPException 404 ''Proposal not found''), example_proposals)"
proof -
  have u: "example_parse_uuid ''00000000-0000-0000-0000-000000000001'' = Some 1"
    "example_parse_uuid ''00000000-0000-0000-0000-000000000002'' = Some 2"
    "example_parse_uuid ''00000000-0000-0000-0000-000000000003'' = Some 3"
    by (simp_all add: example_parse_uuid_def)
  have p: "example_proposals 1 = Some \<lparr>pr_status = ''accepted'', pr_applied_by = None,
                               pr_applied_to_version = None\<rparr>"
    "example_proposals 2 = Some \<lparr>pr_status = ''proposed'', pr_applied_by = None,
                               pr_applied_to_version = None\<rparr>"
    "example_proposals 3 = None"
    by (simp_all add: example_proposals_def)
  from C8_apply_proposal [of example_parse_uuid "''00000000-0000-0000-0000-000000000001''" 1
      example_proposals "\<lparr>pr_status = ''accepted'', pr_applied_by = None,
                               pr_applied_to_version = None\<rparr>"]
    C8_apply_proposal [of example_parse_uuid "''00000000-0000-0000-0000-000000000002''" 2
      example_proposals "\<lparr>pr_status = ''proposed'', pr_applied_by = None,
                               pr_applied_to_version = None\<rparr>"]
    C8_apply_proposal [of example_parse_uuid "''00000000-0000-0000-0000-000000000003''" 3
      example_proposals undefined]
    u p
  show ?thesis by simp
qed

end
